theory Spec2Isabelle
  imports Main "HOL-Library.Sublist"
begin

section \<open>Python values\<close>

text \<open>
  A decoded record is what \<open>json.loads\<close> returns: \<open>None\<close>, a bool, an int, a float, a
  str, a list or a dict with str keys. A \<open>char\<close> stands for one code point below 256. A
  float carries its \<open>repr\<close> text, which determines it. A dict is an association list read
  with \<open>map_of\<close>.
\<close>

datatype json =
    JNull
  | JBool bool
  | JInt int
  | JFloat string
  | JStr string
  | JList "json list"
  | JObj "(string \<times> json) list"

text \<open>
  The exceptions the loader can meet; \<open>StorageError\<close> is any exception that executing a
  statement raises.
\<close>

datatype error = KeyError | TypeError | IndexError | AttributeError | StorageError

definition bnd :: "'e + 'a \<Rightarrow> ('a \<Rightarrow> 'e + 'b) \<Rightarrow> 'e + 'b" where
  "bnd m f = (case m of Inl e \<Rightarrow> Inl e | Inr x \<Rightarrow> f x)"

text \<open>\<open>x[k]\<close> with a str key: only a dict accepts it.\<close>

fun getitem :: "json \<Rightarrow> string \<Rightarrow> error + json" where
  "getitem (JObj kvs) k = (case map_of kvs k of None \<Rightarrow> Inl KeyError | Some v \<Rightarrow> Inr v)"
| "getitem _ k = Inl TypeError"

text \<open>\<open>x[k1][k2]...\<close>, left to right.\<close>

fun getpath :: "json \<Rightarrow> string list \<Rightarrow> error + json" where
  "getpath x [] = Inr x"
| "getpath x (k # ks) = (case getitem x k of Inl e \<Rightarrow> Inl e | Inr v \<Rightarrow> getpath v ks)"

text \<open>
  \<open>x[i]\<close> with a literal index \<open>0\<close> or \<open>1\<close>: a list or a str is indexed, a dict has no
  int key, anything else is not subscriptable.
\<close>

fun getidx :: "json \<Rightarrow> nat \<Rightarrow> error + json" where
  "getidx (JList xs) i = (if i < length xs then Inr (xs ! i) else Inl IndexError)"
| "getidx (JStr s) i = (if i < length s then Inr (JStr [s ! i]) else Inl IndexError)"
| "getidx (JObj kvs) i = Inl KeyError"
| "getidx _ i = Inl TypeError"

text \<open>\<open>x.get(k)\<close>: a dict method.\<close>

fun py_get :: "json \<Rightarrow> string \<Rightarrow> error + json" where
  "py_get (JObj kvs) k = Inr (case map_of kvs k of None \<Rightarrow> JNull | Some v \<Rightarrow> v)"
| "py_get _ k = Inl AttributeError"

text \<open>The items a \<open>for\<close> loop runs over.\<close>

fun py_iter :: "json \<Rightarrow> error + json list" where
  "py_iter (JList xs) = Inr xs"
| "py_iter (JStr s) = Inr (map (\<lambda>c. JStr [c]) s)"
| "py_iter (JObj kvs) = Inr (map JStr (remdups (map fst kvs)))"
| "py_iter _ = Inl TypeError"

text \<open>Truth value of a value in an \<open>if\<close>.\<close>

fun truthy :: "json \<Rightarrow> bool" where
  "truthy JNull = False"
| "truthy (JBool b) = b"
| "truthy (JInt n) = (n \<noteq> 0)"
| "truthy (JFloat r) = (r \<noteq> ''0.0'' \<and> r \<noteq> ''-0.0'')"
| "truthy (JStr s) = (s \<noteq> [])"
| "truthy (JList xs) = (xs \<noteq> [])"
| "truthy (JObj kvs) = (kvs \<noteq> [])"

subsection \<open>\<open>str\<close> and \<open>repr\<close>\<close>

definition digit_char :: "nat \<Rightarrow> char" where
  "digit_char d = ''0123456789abcdef'' ! d"

fun str_nat :: "nat \<Rightarrow> string" where
  "str_nat n = (if n < 10 then [digit_char n] else str_nat (n div 10) @ [digit_char (n mod 10)])"

definition str_int :: "int \<Rightarrow> string" where
  "str_int n = (if n < 0 then CHR ''-'' # str_nat (nat (- n)) else str_nat (nat n))"

definition printable :: "char \<Rightarrow> bool" where
  "printable c = (let n = of_char c :: nat in
     (32 \<le> n \<and> n < 127) \<or> (161 \<le> n \<and> n \<noteq> 173))"

definition repr_char :: "char \<Rightarrow> char \<Rightarrow> string" where
  "repr_char q c =
    (if c = q \<or> c = CHR 0x5C then [CHR 0x5C, c]
     else if c = CHR 0x09 then [CHR 0x5C, CHR ''t'']
     else if c = CHR 0x0A then [CHR 0x5C, CHR ''n'']
     else if c = CHR 0x0D then [CHR 0x5C, CHR ''r'']
     else if printable c then [c]
     else [CHR 0x5C, CHR ''x'', digit_char (of_char c div 16), digit_char (of_char c mod 16)])"

definition repr_str :: "string \<Rightarrow> string" where
  "repr_str s =
    (let q = (if CHR 0x27 \<in> set s \<and> CHR 0x22 \<notin> set s then CHR 0x22 else CHR 0x27)
     in q # concat (map (repr_char q) s) @ [q])"

fun join_comma :: "string list \<Rightarrow> string" where
  "join_comma [] = []"
| "join_comma [x] = x"
| "join_comma (x # y # ys) = x @ '', '' @ join_comma (y # ys)"

fun py_repr :: "json \<Rightarrow> string" where
  "py_repr JNull = ''None''"
| "py_repr (JBool b) = (if b then ''True'' else ''False'')"
| "py_repr (JInt n) = str_int n"
| "py_repr (JFloat r) = r"
| "py_repr (JStr s) = repr_str s"
| "py_repr (JList xs) = ''['' @ join_comma (map py_repr xs) @ '']''"
| "py_repr (JObj kvs) =
     ''{'' @ join_comma (map (\<lambda>kv. repr_str (fst kv) @ '': '' @ py_repr (snd kv)) kvs) @ ''}''"

text \<open>\<open>str(x)\<close>: a str is itself, every other value is its \<open>repr\<close>.\<close>

fun py_str :: "json \<Rightarrow> string" where
  "py_str (JStr s) = s"
| "py_str x = py_repr x"

subsection \<open>The str methods the loader calls\<close>

definition lower_char :: "char \<Rightarrow> char" where
  "lower_char c = (let n = of_char c :: nat in
     if (65 \<le> n \<and> n \<le> 90) \<or> (192 \<le> n \<and> n \<le> 222 \<and> n \<noteq> 215) then char_of (n + 32) else c)"

text \<open>\<open>x.lower()\<close>.\<close>

fun py_lower :: "json \<Rightarrow> error + json" where
  "py_lower (JStr s) = Inr (JStr (map lower_char s))"
| "py_lower _ = Inl AttributeError"

definition is_space :: "char \<Rightarrow> bool" where
  "is_space c = (let n = of_char c :: nat in
     (9 \<le> n \<and> n \<le> 13) \<or> (28 \<le> n \<and> n \<le> 32) \<or> n = 133 \<or> n = 160)"

definition strip :: "string \<Rightarrow> string" where
  "strip s = rev (dropWhile is_space (rev (dropWhile is_space s)))"

text \<open>\<open>s.split(',')[-1]\<close>: what follows the last comma, the whole of \<open>s\<close> when it has none.\<close>

definition last_segment :: "string \<Rightarrow> string" where
  "last_segment s = rev (takeWhile (\<lambda>c. c \<noteq> CHR '','') (rev s))"

section \<open>Helper functions of the loader\<close>

text \<open>
  \<open>remove_nulls(s)\<close>: \<open>None\<close> is returned as it is, a str loses its \<open>\x00\<close> characters
  (\<open>s.replace('\x00','')\<close>); any other value has no \<open>replace\<close> method.
\<close>

fun remove_nulls :: "json \<Rightarrow> error + json" where
  "remove_nulls JNull = Inr JNull"
| "remove_nulls (JStr s) = Inr (JStr (filter (\<lambda>c. c \<noteq> CHR 0x00) s))"
| "remove_nulls _ = Inl AttributeError"


section \<open>The database\<close>

text \<open>
  Modelled from the spec: the schema and the store, which the source does not hold. The
  spec gives the tables and their uniqueness constraints: a Post and an Author are unique
  by identifier, a Url has an auto-assigned surrogate identifier and a unique url string,
  and the associations have the composite keys (post, url), (post, author), (post, tag)
  and (post, url). Identifiers are integers, so an identifier column takes an int or a str
  holding a decimal integer and compares them by their value; any other value is an error
  of the store. A str with the character \<open>\x00\<close> in it is illegal in the store, as the spec
  and the docstring of \<open>remove_nulls\<close> say: a statement that binds one raises and writes
  nothing; so does one that binds a dict, which the driver has no form for. Every other
  column keeps the value bound to it. A row of \<open>users\<close> or \<open>tweets\<close> is the dict of
  parameters of its \<open>INSERT\<close>; a column the statement does not name is null.

  The identifiers of \<open>urls\<close> come from a sequence, \<open>urls_seq\<close> being its next value. A
  sequence is not part of a transaction: an \<open>INSERT\<close> takes its next value before the
  conflict is looked for, so a conflict uses a value up as well, and a rollback does not
  give a value back.
\<close>

type_synonym row = "(string \<times> json) list"

record database =
  urls :: "(nat \<times> json) list"
  users :: "row list"
  tweets :: "row list"
  tweet_urls :: "(json \<times> nat) list"
  tweet_mentions :: "(json \<times> json) list"
  tweet_tags :: "(json \<times> json) list"
  tweet_media :: "(json \<times> nat \<times> json) list"
  urls_seq :: nat

text \<open>
  An exception that leaves a step of a transaction, with the value the sequence has
  reached when it is raised.
\<close>

type_synonym failure = "error \<times> nat"

definition raised_at :: "database \<Rightarrow> error + 'a \<Rightarrow> failure + 'a" where
  "raised_at c m = (case m of Inl e \<Rightarrow> Inl (e, urls_seq c) | Inr x \<Rightarrow> Inr x)"

definition col :: "row \<Rightarrow> string \<Rightarrow> json" where
  "col r c = (case map_of r c of None \<Rightarrow> JNull | Some v \<Rightarrow> v)"

definition is_digit :: "char \<Rightarrow> bool" where
  "is_digit c = (48 \<le> (of_char c :: nat) \<and> (of_char c :: nat) \<le> 57)"

definition parse_nat :: "string \<Rightarrow> nat option" where
  "parse_nat s =
    (if s \<noteq> [] \<and> list_all is_digit s
     then Some (foldl (\<lambda>a c. 10 * a + (of_char c - 48)) 0 s) else None)"

definition parse_int :: "string \<Rightarrow> int option" where
  "parse_int s =
    (if s \<noteq> [] \<and> hd s = CHR ''-'' then map_option (\<lambda>n. - int n) (parse_nat (tl s))
     else map_option int (parse_nat s))"

text \<open>The integer an identifier column reads from a bound value.\<close>

fun id_key :: "json \<Rightarrow> int option" where
  "id_key (JInt n) = Some n"
| "id_key (JStr s) = parse_int s"
| "id_key _ = None"

text \<open>The values a statement can bind: no str with \<open>\x00\<close> in it, and no dict.\<close>

fun bindable :: "json \<Rightarrow> bool" where
  "bindable (JStr s) = (CHR 0x00 \<notin> set s)"
| "bindable (JList xs) = (\<forall>x\<in>set xs. bindable x)"
| "bindable (JObj kvs) = False"
| "bindable _ = True"

definition bindable_row :: "row \<Rightarrow> bool" where
  "bindable_row r = list_all (\<lambda>kv. bindable (snd kv)) r"

subsection \<open>The statements\<close>

text \<open>\<open>SELECT id_tweets FROM tweets WHERE id_tweets = :id_tweets\<close>, then \<open>.first()\<close>.\<close>

definition select_tweets :: "json \<Rightarrow> database \<Rightarrow> error + row option" where
  "select_tweets p c =
    (if p = JNull then Inr None
     else case id_key p of
       None \<Rightarrow> Inl StorageError
     | Some k \<Rightarrow> Inr (find (\<lambda>r. id_key (col r ''id_tweets'') = Some k) (tweets c)))"

text \<open>\<open>INSERT INTO users (...) VALUES (...) ON CONFLICT DO NOTHING\<close>, for both forms.\<close>

definition insert_users :: "row \<Rightarrow> database \<Rightarrow> error + database" where
  "insert_users r c =
    (if \<not> bindable_row r then Inl StorageError
     else case id_key (col r ''id_users'') of
       None \<Rightarrow> Inl StorageError
     | Some k \<Rightarrow>
         if list_ex (\<lambda>r'. id_key (col r' ''id_users'') = Some k) (users c) then Inr c
         else Inr (c\<lparr>users := users c @ [r]\<rparr>))"

text \<open>\<open>INSERT INTO tweets (...) VALUES (...) ON CONFLICT DO NOTHING\<close>.\<close>

definition insert_tweets :: "row \<Rightarrow> database \<Rightarrow> error + database" where
  "insert_tweets r c =
    (if \<not> bindable_row r then Inl StorageError
     else case id_key (col r ''id_tweets'') of
       None \<Rightarrow> Inl StorageError
     | Some k \<Rightarrow>
         if list_ex (\<lambda>r'. id_key (col r' ''id_tweets'') = Some k) (tweets c) then Inr c
         else Inr (c\<lparr>tweets := tweets c @ [r]\<rparr>))"

text \<open>\<open>INSERT INTO tweet_urls (id_tweets, id_urls) VALUES (...) ON CONFLICT DO NOTHING\<close>.\<close>

definition insert_tweet_urls :: "json \<Rightarrow> nat \<Rightarrow> database \<Rightarrow> error + database" where
  "insert_tweet_urls t u c =
    (case id_key t of
       None \<Rightarrow> Inl StorageError
     | Some k \<Rightarrow>
         if list_ex (\<lambda>r. id_key (fst r) = Some k \<and> snd r = u) (tweet_urls c) then Inr c
         else Inr (c\<lparr>tweet_urls := tweet_urls c @ [(t, u)]\<rparr>))"

text \<open>\<open>INSERT INTO tweet_mentions (id_tweets, id_users) VALUES (...) ON CONFLICT DO NOTHING\<close>.\<close>

definition insert_tweet_mentions :: "json \<Rightarrow> json \<Rightarrow> database \<Rightarrow> error + database" where
  "insert_tweet_mentions t u c =
    (case (id_key t, id_key u) of
       (Some k, Some j) \<Rightarrow>
         if list_ex (\<lambda>r. id_key (fst r) = Some k \<and> id_key (snd r) = Some j) (tweet_mentions c)
         then Inr c
         else Inr (c\<lparr>tweet_mentions := tweet_mentions c @ [(t, u)]\<rparr>)
     | _ \<Rightarrow> Inl StorageError)"

text \<open>\<open>INSERT INTO tweet_tags (id_tweets, tag) VALUES (...) ON CONFLICT DO NOTHING\<close>.\<close>

definition insert_tweet_tags :: "json \<Rightarrow> json \<Rightarrow> database \<Rightarrow> error + database" where
  "insert_tweet_tags t tag c =
    (if \<not> bindable tag then Inl StorageError
     else case id_key t of
       None \<Rightarrow> Inl StorageError
     | Some k \<Rightarrow>
         if list_ex (\<lambda>r. id_key (fst r) = Some k \<and> snd r = tag) (tweet_tags c) then Inr c
         else Inr (c\<lparr>tweet_tags := tweet_tags c @ [(t, tag)]\<rparr>))"

text \<open>
  \<open>INSERT INTO tweet_media (id_tweets, id_urls, type) VALUES (...) ON CONFLICT DO NOTHING\<close>.
\<close>

definition insert_tweet_media :: "json \<Rightarrow> nat \<Rightarrow> json \<Rightarrow> database \<Rightarrow> error + database" where
  "insert_tweet_media t u ty c =
    (if \<not> bindable ty then Inl StorageError
     else case id_key t of
       None \<Rightarrow> Inl StorageError
     | Some k \<Rightarrow>
         if list_ex (\<lambda>r. id_key (fst r) = Some k \<and> fst (snd r) = u) (tweet_media c) then Inr c
         else Inr (c\<lparr>tweet_media := tweet_media c @ [(t, u, ty)]\<rparr>))"

text \<open>
  \<open>INSERT INTO urls (url) VALUES (:url) ON CONFLICT DO NOTHING RETURNING id_urls\<close>, then
  \<open>.first()\<close>: the new identifier, or nothing on a conflict. A url that cannot be bound
  raises before the statement reaches the store. A null url conflicts with no row.
\<close>

definition insert_urls :: "json \<Rightarrow> database \<Rightarrow> failure + (database \<times> nat option)" where
  "insert_urls url c =
    (if \<not> bindable url then Inl (StorageError, urls_seq c)
     else if url \<noteq> JNull \<and> list_ex (\<lambda>r. snd r = url) (urls c)
     then Inr (c\<lparr>urls_seq := Suc (urls_seq c)\<rparr>, None)
     else Inr (c\<lparr>urls := urls c @ [(urls_seq c, url)], urls_seq := Suc (urls_seq c)\<rparr>,
               Some (urls_seq c)))"

text \<open>\<open>SELECT id_urls FROM urls WHERE url = :url\<close>, then \<open>.first()\<close>.\<close>

definition select_urls :: "json \<Rightarrow> database \<Rightarrow> nat option" where
  "select_urls url c =
    (if url = JNull then None else map_option fst (find (\<lambda>r. snd r = url) (urls c)))"

text \<open>
  \<open>get_id_urls(url, connection)\<close>. \<open>res[0]\<close> raises \<open>TypeError\<close> when the second
  statement finds no row either.
\<close>

definition get_id_urls :: "json \<Rightarrow> database \<Rightarrow> failure + (database \<times> nat)" where
  "get_id_urls url c =
    bnd (insert_urls url c) (\<lambda>cr.
    case snd cr of
      Some i \<Rightarrow> Inr (fst cr, i)
    | None \<Rightarrow>
        (case select_urls url (fst cr) of
           None \<Rightarrow> Inl (TypeError, urls_seq (fst cr))
         | Some i \<Rightarrow> Inr (fst cr, i)))"

section \<open>\<open>insert_tweet\<close>\<close>

text \<open>\<open>try: m except KeyError: h\<close>.\<close>

definition except_KeyError :: "error + 'a \<Rightarrow> error + 'a \<Rightarrow> error + 'a" where
  "except_KeyError m h = (case m of Inl KeyError \<Rightarrow> h | _ \<Rightarrow> m)"

text \<open>\<open>try: m except (TypeError, KeyError): h\<close>.\<close>

definition except_TypeError_KeyError :: "error + 'a \<Rightarrow> error + 'a \<Rightarrow> error + 'a" where
  "except_TypeError_KeyError m h =
    (case m of Inl TypeError \<Rightarrow> h | Inl KeyError \<Rightarrow> h | _ \<Rightarrow> m)"

text \<open>A loop body run on every item in turn; the first exception ends the loop.\<close>

fun for_each :: "('a \<Rightarrow> 's \<Rightarrow> 'e + 's) \<Rightarrow> 'a list \<Rightarrow> 's \<Rightarrow> 'e + 's" where
  "for_each f [] c = Inr c"
| "for_each f (x # xs) c = (case f x c of Inl e \<Rightarrow> Inl e | Inr c' \<Rightarrow> for_each f xs c')"

text \<open>The values an expression gives on every item in turn.\<close>

fun map_err :: "('a \<Rightarrow> error + 'b) \<Rightarrow> 'a list \<Rightarrow> error + 'b list" where
  "map_err f [] = Inr []"
| "map_err f (x # xs) =
     (case f x of
        Inl e \<Rightarrow> Inl e
      | Inr y \<Rightarrow> (case map_err f xs of Inl e \<Rightarrow> Inl e | Inr ys \<Rightarrow> Inr (y # ys)))"

text \<open>The entries \<open>'k': tweet.get('k')\<close> of a dict of parameters.\<close>

definition get_params :: "json \<Rightarrow> string list \<Rightarrow> error + row" where
  "get_params tweet ks = map_err (\<lambda>k. bnd (py_get tweet k) (\<lambda>v. Inr (k, v))) ks"

subsection \<open>2. Insert user\<close>

text \<open>The \<open>INSERT\<close> of step 2, with the identifier of the profile url found before it.\<close>

definition insert_user_row :: "json \<Rightarrow> json \<Rightarrow> database \<Rightarrow> error + database" where
  "insert_user_row tweet user_id_urls c =
    bnd (getpath tweet [''user'', ''id'']) (\<lambda>uid.
    bnd (get_params tweet
          [''created_at'', ''updated_at'', ''screen_name'', ''name'', ''location'']) (\<lambda>ps1.
    bnd (get_params tweet
          [''description'', ''protected'', ''verified'', ''friends_count'', ''listed_count'',
           ''favourites_count'', ''statuses_count'', ''withheld_in_countries'']) (\<lambda>ps2.
    insert_users
      ((''id_users'', JStr (py_str uid)) # ps1 @ (''id_urls'', user_id_urls) # ps2) c)))"

definition insert_user :: "json \<Rightarrow> database \<Rightarrow> failure + database" where
  "insert_user tweet c =
    bnd (raised_at c (getpath tweet [''user'', ''url''])) (\<lambda>url.
    bnd (if url = JNull then Inr (c, JNull)
         else bnd (get_id_urls url c) (\<lambda>ci. Inr (fst ci, JInt (int (snd ci))))) (\<lambda>cu.
    raised_at (fst cu) (insert_user_row tweet (snd cu) (fst cu))))"

subsection \<open>3. Prepare tweet-level fields\<close>

text \<open>
  What \<open>geo_str\<close> and \<open>geo_coords\<close> hold after the geography block: the coordinates of a
  \<open>POINT\<close>; for a \<open>MULTIPOLYGON\<close> the rings, each the pairs its text is formatted from,
  the closing point last; both \<open>None\<close>; or neither assigned. Nothing reads them later.
\<close>

datatype geo = Point json | MultiPolygon "(json \<times> json) list list" | GeoNone | GeoUnset

definition point_xy :: "json \<Rightarrow> error + (json \<times> json)" where
  "point_xy p = bnd (getidx p 0) (\<lambda>x. bnd (getidx p 1) (\<lambda>y. Inr (x, y)))"

definition ring :: "json \<Rightarrow> error + (json \<times> json) list" where
  "ring poly =
    bnd (py_iter poly) (\<lambda>pts.
    bnd (map_err point_xy pts) (\<lambda>ps.
    bnd (getidx poly 0) (\<lambda>p0.
    bnd (point_xy p0) (\<lambda>p. Inr (ps @ [p])))))"

definition geo_fields :: "json \<Rightarrow> error + geo" where
  "geo_fields tweet =
    (case getpath tweet [''geo'', ''coordinates''] of
       Inr v \<Rightarrow> Inr (Point v)
     | Inl TypeError \<Rightarrow>
         except_KeyError
           (bnd (getpath tweet [''place'', ''bounding_box'', ''coordinates'']) (\<lambda>cs.
            bnd (py_iter cs) (\<lambda>polys.
            bnd (map_err ring polys) (\<lambda>rs. Inr (MultiPolygon rs)))))
           (bnd (getpath tweet [''user'', ''geo_enabled'']) (\<lambda>g.
            Inr (if truthy g then GeoNone else GeoUnset)))
     | Inl e \<Rightarrow> Inl e)"

definition text_field :: "json \<Rightarrow> error + json" where
  "text_field tweet =
    except_KeyError (getpath tweet [''extended_tweet'', ''full_text'']) (getitem tweet ''text'')"

definition country_code_field :: "json \<Rightarrow> error + json" where
  "country_code_field tweet =
    except_TypeError_KeyError
      (bnd (getpath tweet [''place'', ''country_code'']) py_lower) (Inr JNull)"

text \<open>\<open>x.split(',')[-1].strip().lower()\<close>, then the test on its length.\<close>

fun state_code_of :: "json \<Rightarrow> error + json" where
  "state_code_of (JStr s) =
     (let state_code = map lower_char (strip (last_segment s))
      in Inr (if length state_code > 2 then JNull else JStr state_code))"
| "state_code_of _ = Inl AttributeError"

definition state_code_field :: "json \<Rightarrow> json \<Rightarrow> error + json" where
  "state_code_field tweet country_code =
    (if country_code = JStr ''us''
     then bnd (getpath tweet [''place'', ''full_name'']) state_code_of
     else Inr JNull)"

definition place_name_field :: "json \<Rightarrow> error + json" where
  "place_name_field tweet =
    except_TypeError_KeyError (getpath tweet [''place'', ''full_name'']) (Inr JNull)"

record tweet_fields =
  geo_val :: geo
  text_val :: json
  country_code_val :: json
  state_code_val :: json
  place_name_val :: json

definition prepare_fields :: "json \<Rightarrow> error + tweet_fields" where
  "prepare_fields tweet =
    bnd (geo_fields tweet) (\<lambda>g.
    bnd (text_field tweet) (\<lambda>t.
    bnd (country_code_field tweet) (\<lambda>cc.
    bnd (state_code_field tweet cc) (\<lambda>sc.
    bnd (place_name_field tweet) (\<lambda>pn.
    Inr \<lparr>geo_val = g, text_val = t, country_code_val = cc, state_code_val = sc,
         place_name_val = pn\<rparr>)))))"

text \<open>The unhydrated insert of the \<open>in_reply_to\<close> user.\<close>

definition insert_reply_user :: "json \<Rightarrow> database \<Rightarrow> error + database" where
  "insert_reply_user tweet c =
    bnd (py_get tweet ''in_reply_to_user_id'') (\<lambda>r.
    if r \<noteq> JNull then insert_users [(''id_users'', JStr (py_str r))] c else Inr c)"

subsection \<open>4. Insert into tweets table\<close>

definition insert_tweet_row :: "json \<Rightarrow> tweet_fields \<Rightarrow> database \<Rightarrow> error + database" where
  "insert_tweet_row tweet f c =
    bnd (getitem tweet ''id'') (\<lambda>tid.
    bnd (getpath tweet [''user'', ''id'']) (\<lambda>uid.
    bnd (get_params tweet [''created_at'', ''in_reply_to_status_id'']) (\<lambda>ps1.
    bnd (py_get tweet ''in_reply_to_user_id'') (\<lambda>r.
    bnd (get_params tweet
          [''quoted_status_id'', ''retweet_count'', ''favorite_count'', ''quote_count'',
           ''withheld_copyright'', ''withheld_in_countries'']) (\<lambda>ps2.
    bnd (bnd (py_get tweet ''source'') remove_nulls) (\<lambda>source.
    bnd (remove_nulls (text_val f)) (\<lambda>txt.
    bnd (remove_nulls (country_code_val f)) (\<lambda>cc.
    bnd (remove_nulls (state_code_val f)) (\<lambda>sc.
    bnd (bnd (py_get tweet ''lang'') remove_nulls) (\<lambda>lang.
    bnd (remove_nulls (place_name_val f)) (\<lambda>pn.
    insert_tweets
      ([(''id_tweets'', JStr (py_str tid)), (''id_users'', JStr (py_str uid))] @ ps1 @
       [(''in_reply_to_user_id'', if truthy r then JStr (py_str r) else JNull)] @ ps2 @
       [(''source'', source), (''text'', txt), (''country_code'', cc), (''state_code'', sc),
        (''lang'', lang), (''place_name'', pn), (''geo'', JNull)]) c)))))))))))"

subsection \<open>5. tweet_urls\<close>

definition urls_of :: "json \<Rightarrow> error + json" where
  "urls_of tweet =
    except_KeyError (getpath tweet [''extended_tweet'', ''entities'', ''urls''])
      (getpath tweet [''entities'', ''urls''])"

definition tweet_urls_step :: "json \<Rightarrow> json \<Rightarrow> database \<Rightarrow> failure + database" where
  "tweet_urls_step tweet u c =
    bnd (raised_at c (getitem u ''expanded_url'')) (\<lambda>url.
    bnd (get_id_urls url c) (\<lambda>ci.
    raised_at (fst ci)
      (bnd (getitem tweet ''id'') (\<lambda>tid. insert_tweet_urls tid (snd ci) (fst ci)))))"

definition insert_urls_of :: "json \<Rightarrow> database \<Rightarrow> failure + database" where
  "insert_urls_of tweet c =
    bnd (raised_at c (bnd (urls_of tweet) py_iter)) (\<lambda>items.
    for_each (tweet_urls_step tweet) items c)"

subsection \<open>6. tweet_mentions\<close>

definition mentions_of :: "json \<Rightarrow> error + json" where
  "mentions_of tweet =
    except_KeyError (getpath tweet [''extended_tweet'', ''entities'', ''user_mentions''])
      (getpath tweet [''entities'', ''user_mentions''])"

definition tweet_mentions_step :: "json \<Rightarrow> json \<Rightarrow> database \<Rightarrow> error + database" where
  "tweet_mentions_step tweet mention c =
    bnd (getitem mention ''id'') (\<lambda>mid.
    bnd (insert_users [(''id_users'', mid)] c) (\<lambda>c'.
    bnd (getitem tweet ''id'') (\<lambda>tid.
    bnd (getitem mention ''id'') (\<lambda>mid'.
    insert_tweet_mentions tid mid' c'))))"

definition insert_mentions_of :: "json \<Rightarrow> database \<Rightarrow> error + database" where
  "insert_mentions_of tweet c =
    bnd (bnd (mentions_of tweet) py_iter) (\<lambda>items.
    for_each (tweet_mentions_step tweet) items c)"

subsection \<open>7. tweet_tags\<close>

text \<open>\<open>[sigil + h['text'] for h in hs]\<close>: only a str can be added to a str.\<close>

definition tag_of :: "string \<Rightarrow> json \<Rightarrow> error + json" where
  "tag_of sigil h =
    bnd (getitem h ''text'') (\<lambda>t.
    case t of JStr s \<Rightarrow> Inr (JStr (sigil @ s)) | _ \<Rightarrow> Inl TypeError)"

definition tags_of :: "json \<Rightarrow> error + json list" where
  "tags_of tweet =
    bnd (except_KeyError
          (bnd (getpath tweet [''extended_tweet'', ''entities'', ''hashtags'']) (\<lambda>hs.
           bnd (getpath tweet [''extended_tweet'', ''entities'', ''symbols'']) (\<lambda>cs.
           Inr (hs, cs))))
          (bnd (getpath tweet [''entities'', ''hashtags'']) (\<lambda>hs.
           bnd (getpath tweet [''entities'', ''symbols'']) (\<lambda>cs.
           Inr (hs, cs))))) (\<lambda>hc.
    bnd (py_iter (fst hc)) (\<lambda>hitems.
    bnd (map_err (tag_of ''#'') hitems) (\<lambda>htags.
    bnd (py_iter (snd hc)) (\<lambda>citems.
    bnd (map_err (tag_of ''$'') citems) (\<lambda>ctags.
    Inr (htags @ ctags))))))"

definition tweet_tags_step :: "json \<Rightarrow> json \<Rightarrow> database \<Rightarrow> error + database" where
  "tweet_tags_step tweet tag c =
    bnd (getitem tweet ''id'') (\<lambda>tid.
    bnd (remove_nulls tag) (\<lambda>t.
    insert_tweet_tags tid t c))"

definition insert_tags_of :: "json \<Rightarrow> database \<Rightarrow> error + database" where
  "insert_tags_of tweet c =
    bnd (tags_of tweet) (\<lambda>tags. for_each (tweet_tags_step tweet) tags c)"

subsection \<open>8. tweet_media\<close>

definition media_of :: "json \<Rightarrow> error + json" where
  "media_of tweet =
    except_KeyError (getpath tweet [''extended_tweet'', ''extended_entities'', ''media''])
      (except_KeyError (getpath tweet [''extended_entities'', ''media'']) (Inr (JList [])))"

definition tweet_media_step :: "json \<Rightarrow> json \<Rightarrow> database \<Rightarrow> failure + database" where
  "tweet_media_step tweet m c =
    bnd (raised_at c (getitem m ''media_url'')) (\<lambda>url.
    bnd (get_id_urls url c) (\<lambda>ci.
    raised_at (fst ci)
      (bnd (getitem tweet ''id'') (\<lambda>tid.
       bnd (bnd (getitem m ''type'') remove_nulls) (\<lambda>ty.
       insert_tweet_media tid (snd ci) ty (fst ci))))))"

definition insert_media_of :: "json \<Rightarrow> database \<Rightarrow> failure + database" where
  "insert_media_of tweet c =
    bnd (raised_at c (bnd (media_of tweet) py_iter)) (\<lambda>items.
    for_each (tweet_media_step tweet) items c)"

subsection \<open>The transaction\<close>

text \<open>
  The block under \<open>with connection.begin()\<close>: the check of step 1, whose \<open>return\<close> leaves
  the block with nothing written, then steps 2 to 8 in the order of the source.
\<close>

definition insert_tweet_body :: "json \<Rightarrow> database \<Rightarrow> failure + database" where
  "insert_tweet_body tweet c =
    bnd (raised_at c (getitem tweet ''id'')) (\<lambda>tid.
    bnd (raised_at c (select_tweets (JStr (py_str tid)) c)) (\<lambda>res.
    if res \<noteq> None then Inr c
    else
      bnd (insert_user tweet c) (\<lambda>c2.
      bnd (raised_at c2 (prepare_fields tweet)) (\<lambda>f.
      bnd (raised_at c2 (insert_reply_user tweet c2)) (\<lambda>c3.
      bnd (raised_at c3 (insert_tweet_row tweet f c3)) (\<lambda>c4.
      bnd (insert_urls_of tweet c4) (\<lambda>c5.
      bnd (raised_at c5 (insert_mentions_of tweet c5)) (\<lambda>c6.
      bnd (raised_at c6 (insert_tags_of tweet c6)) (\<lambda>c7.
      insert_media_of tweet c7)))))))))"

text \<open>
  \<open>with connection.begin() as trans\<close>: the block's writes are committed when it is left
  normally, by its end or by \<open>return\<close>, and rolled back when an exception leaves it; the
  exception goes on to the caller. The rows are then those of before the block; the
  sequence keeps the value it has reached.
\<close>

definition transaction ::
  "(database \<Rightarrow> failure + database) \<Rightarrow> database \<Rightarrow> database \<times> (error + unit)" where
  "transaction block c =
    (case block c of
       Inl en \<Rightarrow> (c\<lparr>urls_seq := snd en\<rparr>, Inl (fst en))
     | Inr c' \<Rightarrow> (c', Inr ()))"

definition insert_tweet :: "database \<Rightarrow> json \<Rightarrow> database \<times> (error + unit)" where
  "insert_tweet connection tweet = transaction (insert_tweet_body tweet) connection"

definition empty_db :: database where
  "empty_db = \<lparr>urls = [], users = [], tweets = [], tweet_urls = [], tweet_mentions = [],
     tweet_tags = [], tweet_media = [], urls_seq = 1\<rparr>"

section \<open>Notions used in the properties\<close>

text \<open>The rows of two databases are the same; the sequence may have moved.\<close>

definition same_rows :: "database \<Rightarrow> database \<Rightarrow> bool" where
  "same_rows c c' \<longleftrightarrow>
     urls c' = urls c \<and> users c' = users c \<and> tweets c' = tweets c \<and>
     tweet_urls c' = tweet_urls c \<and> tweet_mentions c' = tweet_mentions c \<and>
     tweet_tags c' = tweet_tags c \<and> tweet_media c' = tweet_media c"

text \<open>Every row of \<open>c\<close> is a row of \<open>c'\<close>, in its place: rows were added at most.\<close>

definition grows :: "database \<Rightarrow> database \<Rightarrow> bool" where
  "grows c c' \<longleftrightarrow>
     prefix (urls c) (urls c') \<and> prefix (users c) (users c') \<and>
     prefix (tweets c) (tweets c') \<and> prefix (tweet_urls c) (tweet_urls c') \<and>
     prefix (tweet_mentions c) (tweet_mentions c') \<and> prefix (tweet_tags c) (tweet_tags c') \<and>
     prefix (tweet_media c) (tweet_media c')"

text \<open>A step that adds rows at most and leaves \<open>tweets\<close> as it was.\<close>

definition frame :: "database \<Rightarrow> database \<Rightarrow> bool" where
  "frame c c' \<longleftrightarrow> grows c c' \<and> tweets c' = tweets c"

text \<open>The uniqueness constraint of \<open>urls\<close>: no url, null apart, stands in two rows.\<close>

definition urls_unique :: "database \<Rightarrow> bool" where
  "urls_unique c \<longleftrightarrow> distinct (filter (\<lambda>u. u \<noteq> JNull) (map snd (urls c)))"

text \<open>A sequence of resolutions, one after the other, and the identifiers they return.\<close>

fun resolve_all :: "json list \<Rightarrow> database \<Rightarrow> failure + (database \<times> nat list)" where
  "resolve_all [] c = Inr (c, [])"
| "resolve_all (u # us) c =
     (case get_id_urls u c of
        Inl e \<Rightarrow> Inl e
      | Inr ci \<Rightarrow>
          (case resolve_all us (fst ci) of
             Inl e \<Rightarrow> Inl e
           | Inr cis \<Rightarrow> Inr (fst cis, snd ci # snd cis)))"

text \<open>Steps 2 to 4 of the block, one after the other.\<close>

definition steps_2_to_4 :: "json \<Rightarrow> database \<Rightarrow> failure + database" where
  "steps_2_to_4 tweet c =
    bnd (insert_user tweet c) (\<lambda>c2.
    bnd (raised_at c2 (prepare_fields tweet)) (\<lambda>f.
    bnd (raised_at c2 (insert_reply_user tweet c2)) (\<lambda>c3.
    raised_at c3 (insert_tweet_row tweet f c3))))"

subsection \<open>The rows of a record\<close>

text \<open>A row of the table for the identifier, or the pair of keys, bound.\<close>

definition has_user :: "json \<Rightarrow> database \<Rightarrow> bool" where
  "has_user u c \<longleftrightarrow>
     id_key u \<noteq> None \<and> list_ex (\<lambda>r. id_key (col r ''id_users'') = id_key u) (users c)"

definition has_tweet :: "json \<Rightarrow> database \<Rightarrow> bool" where
  "has_tweet t c \<longleftrightarrow>
     id_key t \<noteq> None \<and> list_ex (\<lambda>r. id_key (col r ''id_tweets'') = id_key t) (tweets c)"

definition has_tweet_url :: "json \<Rightarrow> nat \<Rightarrow> database \<Rightarrow> bool" where
  "has_tweet_url t i c \<longleftrightarrow>
     id_key t \<noteq> None \<and> list_ex (\<lambda>r. id_key (fst r) = id_key t \<and> snd r = i) (tweet_urls c)"

definition has_tweet_mention :: "json \<Rightarrow> json \<Rightarrow> database \<Rightarrow> bool" where
  "has_tweet_mention t u c \<longleftrightarrow>
     id_key t \<noteq> None \<and> id_key u \<noteq> None \<and>
     list_ex (\<lambda>r. id_key (fst r) = id_key t \<and> id_key (snd r) = id_key u) (tweet_mentions c)"

definition has_tweet_tag :: "json \<Rightarrow> json \<Rightarrow> database \<Rightarrow> bool" where
  "has_tweet_tag t tag c \<longleftrightarrow>
     id_key t \<noteq> None \<and> list_ex (\<lambda>r. id_key (fst r) = id_key t \<and> snd r = tag) (tweet_tags c)"

definition has_tweet_media :: "json \<Rightarrow> nat \<Rightarrow> database \<Rightarrow> bool" where
  "has_tweet_media t i c \<longleftrightarrow>
     id_key t \<noteq> None \<and>
     list_ex (\<lambda>r. id_key (fst r) = id_key t \<and> fst (snd r) = i) (tweet_media c)"

text \<open>
  The rows of one entity of the post \<open>tid\<close>: of a url entity, the row of its url and the
  association with that row's identifier; of a mention, the author row and the
  association; of a tag, the association with the sanitized tag; of a media entity, the
  row of its url and the association.
\<close>

definition url_rows :: "json \<Rightarrow> json \<Rightarrow> database \<Rightarrow> bool" where
  "url_rows tid u c \<longleftrightarrow>
     (\<exists>url i. getitem u ''expanded_url'' = Inr url \<and> (i, url) \<in> set (urls c) \<and>
        has_tweet_url tid i c)"

definition mention_rows :: "json \<Rightarrow> json \<Rightarrow> database \<Rightarrow> bool" where
  "mention_rows tid m c \<longleftrightarrow>
     (\<exists>mid. getitem m ''id'' = Inr mid \<and> has_user mid c \<and> has_tweet_mention tid mid c)"

definition tag_rows :: "json \<Rightarrow> json \<Rightarrow> database \<Rightarrow> bool" where
  "tag_rows tid tag c \<longleftrightarrow> (\<exists>t. remove_nulls tag = Inr t \<and> has_tweet_tag tid t c)"

definition media_rows :: "json \<Rightarrow> json \<Rightarrow> database \<Rightarrow> bool" where
  "media_rows tid m c \<longleftrightarrow>
     (\<exists>url i. getitem m ''media_url'' = Inr url \<and> (i, url) \<in> set (urls c) \<and>
        has_tweet_media tid i c)"

text \<open>
  Every row the block produces for a record is in the database: the author's row and the
  row of a profile url, the row of a reply target, the post's row, and the rows of every
  url, mention, tag and media entity the fallback chains of steps 5 to 8 give.
\<close>

definition record_rows :: "json \<Rightarrow> database \<Rightarrow> bool" where
  "record_rows tweet c \<longleftrightarrow>
     (\<exists>tid uid purl rid us ms tags media.
        getitem tweet ''id'' = Inr tid \<and>
        getpath tweet [''user'', ''id''] = Inr uid \<and>
        getpath tweet [''user'', ''url''] = Inr purl \<and>
        py_get tweet ''in_reply_to_user_id'' = Inr rid \<and>
        bnd (urls_of tweet) py_iter = Inr us \<and>
        bnd (mentions_of tweet) py_iter = Inr ms \<and>
        tags_of tweet = Inr tags \<and>
        bnd (media_of tweet) py_iter = Inr media \<and>
        has_user (JStr (py_str uid)) c \<and>
        (purl \<noteq> JNull \<longrightarrow> (\<exists>i. (i, purl) \<in> set (urls c))) \<and>
        (rid \<noteq> JNull \<longrightarrow> has_user (JStr (py_str rid)) c) \<and>
        has_tweet (JStr (py_str tid)) c \<and>
        (\<forall>u\<in>set us. url_rows tid u c) \<and>
        (\<forall>m\<in>set ms. mention_rows tid m c) \<and>
        (\<forall>t\<in>set tags. tag_rows tid t c) \<and>
        (\<forall>m\<in>set media. media_rows tid m c))"

subsection \<open>Example records\<close>

text \<open>
  A record of author 2 with a profile url, point coordinates, a reply target, a url, a
  mention, a hashtag and a cashtag; and the database after its ingestion into the empty one.
\<close>

definition tweet_a :: json where
  "tweet_a = JObj
    [(''id'', JInt 1),
     (''user'', JObj [(''id'', JInt 2), (''url'', JStr ''http://u''),
        (''screen_name'', JStr ''alice''), (''geo_enabled'', JBool False)]),
     (''geo'', JObj [(''coordinates'', JList [JFloat ''1.5'', JFloat ''2.5''])]),
     (''text'', JStr ''hi''),
     (''place'', JNull),
     (''in_reply_to_user_id'', JInt 3),
     (''entities'', JObj
        [(''urls'', JList [JObj [(''expanded_url'', JStr ''http://a'')]]),
         (''user_mentions'', JList [JObj [(''id'', JInt 4)]]),
         (''hashtags'', JList [JObj [(''text'', JStr ''foo'')]]),
         (''symbols'', JList [JObj [(''text'', JStr ''BAR'')]])])]"

definition db_a :: database where
  "db_a =
    \<lparr>urls = [(1, JStr ''http://u''), (2, JStr ''http://a'')],
     users =
       [[(''id_users'', JStr ''2''), (''created_at'', JNull), (''updated_at'', JNull),
         (''screen_name'', JNull), (''name'', JNull), (''location'', JNull),
         (''id_urls'', JInt 1), (''description'', JNull), (''protected'', JNull),
         (''verified'', JNull), (''friends_count'', JNull), (''listed_count'', JNull),
         (''favourites_count'', JNull), (''statuses_count'', JNull),
         (''withheld_in_countries'', JNull)],
        [(''id_users'', JStr ''3'')],
        [(''id_users'', JInt 4)]],
     tweets =
       [[(''id_tweets'', JStr ''1''), (''id_users'', JStr ''2''), (''created_at'', JNull),
         (''in_reply_to_status_id'', JNull), (''in_reply_to_user_id'', JStr ''3''),
         (''quoted_status_id'', JNull), (''retweet_count'', JNull),
         (''favorite_count'', JNull), (''quote_count'', JNull),
         (''withheld_copyright'', JNull), (''withheld_in_countries'', JNull),
         (''source'', JNull), (''text'', JStr ''hi''), (''country_code'', JNull),
         (''state_code'', JNull), (''lang'', JNull), (''place_name'', JNull),
         (''geo'', JNull)]],
     tweet_urls = [(JInt 1, 2)],
     tweet_mentions = [(JInt 1, JInt 4)],
     tweet_tags = [(JInt 1, JStr ''#foo''), (JInt 1, JStr ''$BAR'')],
     tweet_media = [],
     urls_seq = 3\<rparr>"

text \<open>A record with both identifiers and no \<open>entities\<close>.\<close>

definition tweet_no_entities :: json where
  "tweet_no_entities = JObj
    [(''id'', JInt 1),
     (''user'', JObj [(''id'', JInt 2), (''url'', JNull), (''geo_enabled'', JBool False)]),
     (''geo'', JNull),
     (''text'', JStr ''hi''),
     (''place'', JObj [])]"

text \<open>A record with a place and its bounding box, and no point coordinates.\<close>

definition tweet_place :: json where
  "tweet_place = JObj
    [(''id'', JInt 7),
     (''user'', JObj [(''id'', JInt 2), (''url'', JNull)]),
     (''geo'', JNull),
     (''text'', JStr ''at home''),
     (''place'', JObj
        [(''country_code'', JStr ''US''), (''full_name'', JStr ''Boston, MA''),
         (''bounding_box'', JObj [(''coordinates'', JList [JList
            [JList [JFloat ''-71.2'', JFloat ''42.2''], JList [JFloat ''-71.2'', JFloat ''42.4''],
             JList [JFloat ''-70.9'', JFloat ''42.4''], JList [JFloat ''-70.9'', JFloat ''42.2'']]])])]),
     (''entities'', JObj [(''urls'', JList []), (''user_mentions'', JList []),
         (''hashtags'', JList []), (''symbols'', JList [])])]"

text \<open>
  A record of author 4, whom \<open>tweet_a\<close> mentions, with profile fields in its author
  sub-document; it mentions author 2.
\<close>

definition tweet_b :: json where
  "tweet_b = JObj
    [(''id'', JInt 5),
     (''created_at'', JStr ''Mon''),
     (''user'', JObj [(''id'', JInt 4), (''url'', JNull), (''created_at'', JStr ''Sun''),
        (''screen_name'', JStr ''bob''), (''name'', JStr ''Bob''), (''location'', JStr ''Oslo''),
        (''description'', JStr ''me''), (''verified'', JBool True),
        (''friends_count'', JInt 10), (''geo_enabled'', JBool True)]),
     (''geo'', JNull),
     (''text'', JStr ''yo''),
     (''place'', JObj []),
     (''entities'', JObj
        [(''urls'', JList []),
         (''user_mentions'', JList [JObj [(''id'', JInt 2)]]),
         (''hashtags'', JList []),
         (''symbols'', JList [])])]"

text \<open>
  A record like \<open>tweet_a\<close> with a media entity that has no \<open>media_url\<close>: step 8 raises
  after steps 2 to 7 have written.
\<close>

definition tweet_late :: json where
  "tweet_late = JObj
    [(''id'', JInt 1),
     (''user'', JObj [(''id'', JInt 2), (''url'', JStr ''http://u''),
        (''geo_enabled'', JBool False)]),
     (''geo'', JObj [(''coordinates'', JList [JFloat ''1.5'', JFloat ''2.5''])]),
     (''text'', JStr ''hi''),
     (''place'', JNull),
     (''entities'', JObj
        [(''urls'', JList [JObj [(''expanded_url'', JStr ''http://a'')]]),
         (''user_mentions'', JList [JObj [(''id'', JInt 4)]]),
         (''hashtags'', JList [JObj [(''text'', JStr ''foo'')]]),
         (''symbols'', JList [])]),
     (''extended_entities'', JObj [(''media'', JList [JObj [(''type'', JStr ''photo'')]])])]"

text \<open>
  The record with the given profile url, creation time, text and url entity; \<open>nul\<close> is a
  str with \<open>\x00\<close> at its end.
\<close>

definition tweet_with :: "string \<Rightarrow> string \<Rightarrow> string \<Rightarrow> string \<Rightarrow> json" where
  "tweet_with profile_url created txt entity_url = JObj
    [(''id'', JInt 9),
     (''created_at'', JStr created),
     (''user'', JObj [(''id'', JInt 2), (''url'', JStr profile_url),
        (''geo_enabled'', JBool False)]),
     (''geo'', JNull),
     (''text'', JStr txt),
     (''place'', JObj []),
     (''entities'', JObj
        [(''urls'', JList [JObj [(''expanded_url'', JStr entity_url)]]),
         (''user_mentions'', JList []),
         (''hashtags'', JList []),
         (''symbols'', JList [])])]"

definition nul :: "string \<Rightarrow> string" where
  "nul s = s @ [CHR 0x00]"

text \<open>Records with both identifiers and no \<open>text\<close>, and with a null place and no \<open>entities\<close>.\<close>

definition tweet_no_text :: json where
  "tweet_no_text = JObj
    [(''id'', JInt 1),
     (''user'', JObj [(''id'', JInt 2), (''url'', JNull), (''geo_enabled'', JBool False)]),
     (''geo'', JNull),
     (''place'', JObj [])]"

definition tweet_null_place :: json where
  "tweet_null_place = JObj
    [(''id'', JInt 1),
     (''user'', JObj [(''id'', JInt 2), (''url'', JNull), (''geo_enabled'', JBool False)]),
     (''geo'', JNull),
     (''text'', JStr ''hi''),
     (''place'', JNull)]"

section \<open>Properties\<close>

subsection \<open>Sequencing\<close>

declare str_nat.simps [simp del]

lemma bnd_Inl [simp]: "bnd (Inl e) f = Inl e"
  by (simp add: bnd_def)

lemma bnd_Inr [simp]: "bnd (Inr x) f = f x"
  by (simp add: bnd_def)

lemma bnd_eq_Inr: "bnd m f = Inr y \<longleftrightarrow> (\<exists>x. m = Inr x \<and> f x = Inr y)"
  by (cases m) simp_all

lemma raised_at_Inl [simp]: "raised_at c (Inl e) = Inl (e, urls_seq c)"
  by (simp add: raised_at_def)

lemma raised_at_Inr [simp]: "raised_at c (Inr x) = Inr x"
  by (simp add: raised_at_def)

lemma raised_at_eq_Inr [simp]: "raised_at c m = Inr x \<longleftrightarrow> m = Inr x"
  by (cases m) simp_all

subsection \<open>The sanitizer\<close>

text \<open>
  C10. \<open>remove_nulls\<close> is idempotent on every str, and a str with no \<open>\x00\<close> in it is
  returned as it is.
\<close>

theorem remove_nulls_idempotent:
  "bnd (remove_nulls (JStr s)) remove_nulls = remove_nulls (JStr s) \<and>
   (CHR 0x00 \<notin> set s \<longrightarrow> remove_nulls (JStr s) = Inr (JStr s))"
proof -
  have "filter (\<lambda>c. c \<noteq> CHR 0x00) s = s" if "CHR 0x00 \<notin> set s"
    using that by (induction s) auto
  then show ?thesis by simp
qed

theorem remove_nulls_idempotent_witness:
  "CHR 0x00 \<notin> set ''hello world'' \<and>
   remove_nulls (JStr ''hello world'') = Inr (JStr ''hello world'') \<and>
   bnd (remove_nulls (JStr [CHR ''a'', CHR 0x00, CHR ''b''])) remove_nulls = Inr (JStr ''ab'')"
  using remove_nulls_idempotent [of "''hello world''"]
    remove_nulls_idempotent [of "[CHR ''a'', CHR 0x00, CHR ''b'']"]
  by simp

subsection \<open>Rows are added at most\<close>

lemma grows_refl [simp]: "grows c c"
  by (simp add: grows_def)

lemma grows_trans: "grows a b \<Longrightarrow> grows b c \<Longrightarrow> grows a c"
  unfolding grows_def by (blast intro: prefix_order.trans)

lemma frame_refl [simp]: "frame c c"
  by (simp add: frame_def)

lemma frame_trans: "frame a b \<Longrightarrow> frame b c \<Longrightarrow> frame a c"
  by (auto simp: frame_def intro: grows_trans)

lemma frame_grows: "frame c c' \<Longrightarrow> grows c c'"
  by (simp add: frame_def)

lemma frame_tweets: "frame c c' \<Longrightarrow> tweets c' = tweets c"
  by (simp add: frame_def)

lemma for_each_rel:
  assumes step: "\<And>x c c'. f x c = Inr c' \<Longrightarrow> R c c'"
    and refl: "\<And>c. R c c"
    and trans: "\<And>a b c. R a b \<Longrightarrow> R b c \<Longrightarrow> R a c"
  shows "for_each f xs c = Inr c' \<Longrightarrow> R c c'"
proof (induction xs arbitrary: c)
  case Nil
  then show ?case by (simp add: refl)
next
  case (Cons x xs)
  then obtain c1 where 1: "f x c = Inr c1" and 2: "for_each f xs c1 = Inr c'"
    by (auto split: sum.splits)
  from step [OF 1] Cons.IH [OF 2] show ?case by (rule trans)
qed

lemma for_each_frame:
  assumes "\<And>x c c'. f x c = Inr c' \<Longrightarrow> frame c c'"
  shows "for_each f xs c = Inr c' \<Longrightarrow> frame c c'"
  using assms by (rule for_each_rel) (auto intro: frame_trans)

lemma insert_users_frame: "insert_users r c = Inr c' \<Longrightarrow> frame c c'"
  by (auto simp: insert_users_def frame_def grows_def split: option.splits if_splits)

lemma insert_urls_frame: "insert_urls u c = Inr cr \<Longrightarrow> frame c (fst cr)"
  by (auto simp: insert_urls_def frame_def grows_def split: if_splits)

lemma get_id_urls_insert:
  "get_id_urls u c = Inr ci \<Longrightarrow> \<exists>cr. insert_urls u c = Inr cr \<and> fst ci = fst cr"
  by (auto simp: get_id_urls_def bnd_eq_Inr split: option.splits)

lemma get_id_urls_frame:
  assumes "get_id_urls u c = Inr ci"
  shows "frame c (fst ci)"
proof -
  from get_id_urls_insert [OF assms] obtain cr where
    1: "insert_urls u c = Inr cr" and 2: "fst ci = fst cr"
    by blast
  from insert_urls_frame [OF 1] 2 show ?thesis by simp
qed

lemma insert_tweet_urls_frame: "insert_tweet_urls t u c = Inr c' \<Longrightarrow> frame c c'"
  by (auto simp: insert_tweet_urls_def frame_def grows_def split: option.splits if_splits)

lemma insert_tweet_mentions_frame: "insert_tweet_mentions t u c = Inr c' \<Longrightarrow> frame c c'"
  by (auto simp: insert_tweet_mentions_def frame_def grows_def split: option.splits if_splits)

lemma insert_tweet_tags_frame: "insert_tweet_tags t u c = Inr c' \<Longrightarrow> frame c c'"
  by (auto simp: insert_tweet_tags_def frame_def grows_def split: option.splits if_splits)

lemma insert_tweet_media_frame: "insert_tweet_media t u ty c = Inr c' \<Longrightarrow> frame c c'"
  by (auto simp: insert_tweet_media_def frame_def grows_def split: option.splits if_splits)

lemma insert_tweets_grows: "insert_tweets r c = Inr c' \<Longrightarrow> grows c c'"
  by (auto simp: insert_tweets_def grows_def split: option.splits if_splits)

lemma insert_user_row_frame: "insert_user_row tweet u c = Inr c' \<Longrightarrow> frame c c'"
  unfolding insert_user_row_def
  by (auto simp: bnd_eq_Inr dest!: insert_users_frame)

lemma insert_user_frame: "insert_user tweet c = Inr c' \<Longrightarrow> frame c c'"
  unfolding insert_user_def
  by (auto simp: bnd_eq_Inr split: if_splits
      dest!: get_id_urls_frame insert_user_row_frame intro: frame_trans)

lemma insert_reply_user_frame: "insert_reply_user tweet c = Inr c' \<Longrightarrow> frame c c'"
  unfolding insert_reply_user_def
  by (auto simp: bnd_eq_Inr split: if_splits dest!: insert_users_frame)

lemma tweet_urls_step_frame: "tweet_urls_step tweet u c = Inr c' \<Longrightarrow> frame c c'"
  unfolding tweet_urls_step_def
  by (auto simp: bnd_eq_Inr dest!: get_id_urls_frame insert_tweet_urls_frame intro: frame_trans)

lemma tweet_mentions_step_frame: "tweet_mentions_step tweet u c = Inr c' \<Longrightarrow> frame c c'"
  unfolding tweet_mentions_step_def
  by (auto simp: bnd_eq_Inr dest!: insert_users_frame insert_tweet_mentions_frame intro: frame_trans)

lemma tweet_tags_step_frame: "tweet_tags_step tweet u c = Inr c' \<Longrightarrow> frame c c'"
  unfolding tweet_tags_step_def
  by (auto simp: bnd_eq_Inr dest!: insert_tweet_tags_frame)

lemma tweet_media_step_frame: "tweet_media_step tweet u c = Inr c' \<Longrightarrow> frame c c'"
  unfolding tweet_media_step_def
  by (auto simp: bnd_eq_Inr dest!: get_id_urls_frame insert_tweet_media_frame intro: frame_trans)

lemma insert_urls_of_frame: "insert_urls_of tweet c = Inr c' \<Longrightarrow> frame c c'"
  unfolding insert_urls_of_def
  by (auto simp: bnd_eq_Inr intro: for_each_frame tweet_urls_step_frame)

lemma insert_mentions_of_frame: "insert_mentions_of tweet c = Inr c' \<Longrightarrow> frame c c'"
  unfolding insert_mentions_of_def
  by (auto simp: bnd_eq_Inr intro: for_each_frame tweet_mentions_step_frame)

lemma insert_tags_of_frame: "insert_tags_of tweet c = Inr c' \<Longrightarrow> frame c c'"
  unfolding insert_tags_of_def
  by (auto simp: bnd_eq_Inr intro: for_each_frame tweet_tags_step_frame)

lemma insert_media_of_frame: "insert_media_of tweet c = Inr c' \<Longrightarrow> frame c c'"
  unfolding insert_media_of_def
  by (auto simp: bnd_eq_Inr intro: for_each_frame tweet_media_step_frame)

subsection \<open>The post row\<close>

lemma map_err_keys:
  "map_err (\<lambda>k. bnd (g k) (\<lambda>v. Inr (k, v))) ks = Inr ps \<Longrightarrow> map fst ps = ks"
  by (induction ks arbitrary: ps) (auto simp: bnd_eq_Inr split: sum.splits)

lemma get_params_keys: "get_params tweet ks = Inr ps \<Longrightarrow> map fst ps = ks"
  unfolding get_params_def by (rule map_err_keys)

lemma map_of_absent: "k \<notin> set (map fst ps) \<Longrightarrow> map_of ps k = None"
  by (simp add: map_of_eq_None_iff)

lemma select_tweets_tweets: "tweets c' = tweets c \<Longrightarrow> select_tweets p c' = select_tweets p c"
  by (simp add: select_tweets_def split: option.splits)

text \<open>What step 4 does to the tables.\<close>

lemma insert_tweet_row_effect:
  assumes "insert_tweet_row tweet f c = Inr c'"
  shows "\<exists>tid r. getitem tweet ''id'' = Inr tid \<and> insert_tweets r c = Inr c' \<and>
           col r ''id_tweets'' = JStr (py_str tid) \<and> map_of r ''geo'' = Some JNull"
proof -
  from assms obtain tid uid ps1 rp ps2 src tx ccode scode lng pname where
    tid: "getitem tweet ''id'' = Inr tid" and
    ps1: "get_params tweet [''created_at'', ''in_reply_to_status_id''] = Inr ps1" and
    ps2: "get_params tweet [''quoted_status_id'', ''retweet_count'', ''favorite_count'',
            ''quote_count'', ''withheld_copyright'', ''withheld_in_countries''] = Inr ps2" and
    ins: "insert_tweets
      ([(''id_tweets'', JStr (py_str tid)), (''id_users'', JStr (py_str uid))] @ ps1 @
       [(''in_reply_to_user_id'', if truthy rp then JStr (py_str rp) else JNull)] @ ps2 @
       [(''source'', src), (''text'', tx), (''country_code'', ccode), (''state_code'', scode),
        (''lang'', lng), (''place_name'', pname), (''geo'', JNull)]) c = Inr c'"
    unfolding insert_tweet_row_def bnd_eq_Inr by blast
  have 1: "map_of ps1 ''geo'' = None"
    by (rule map_of_absent) (simp add: get_params_keys [OF ps1])
  have 2: "map_of ps2 ''geo'' = None"
    by (rule map_of_absent) (simp add: get_params_keys [OF ps2])
  show ?thesis
    apply (rule exI [of _ tid])
    apply (rule exI)
    apply (intro conjI)
       apply (rule tid)
      apply (rule ins)
     apply (simp add: col_def)
    apply (simp add: map_add_def 1 2)
    done
qed

lemma insert_tweets_users: "insert_tweets r c = Inr c' \<Longrightarrow> users c' = users c"
  by (auto simp: insert_tweets_def split: option.splits if_splits)

lemma insert_tweets_urls: "insert_tweets r c = Inr c' \<Longrightarrow> urls c' = urls c"
  by (auto simp: insert_tweets_def split: option.splits if_splits)

lemma select_tweets_None:
  "select_tweets (JStr s) c = Inr None \<Longrightarrow>
   \<exists>k. id_key (JStr s) = Some k \<and> find (\<lambda>r. id_key (col r ''id_tweets'') = Some k) (tweets c) = None"
  by (auto simp: select_tweets_def split: option.splits)

lemma find_snoc_new: "find P xs = None \<Longrightarrow> P r \<Longrightarrow> find P (xs @ [r]) = Some r"
  by (induction xs) (auto split: if_splits)

lemma find_prefix: "find P xs = Some r \<Longrightarrow> prefix xs ys \<Longrightarrow> find P ys = Some r"
  by (induction xs arbitrary: ys) (auto simp: prefix_def split: if_splits)

lemma insert_tweets_new:
  assumes "insert_tweets r c = Inr c'" and "col r ''id_tweets'' = JStr s"
    and "select_tweets (JStr s) c = Inr None"
  shows "tweets c' = tweets c @ [r] \<and> select_tweets (JStr s) c' = Inr (Some r)"
proof -
  from select_tweets_None [OF assms(3)] obtain k where
    k: "id_key (JStr s) = Some k" and
    none: "find (\<lambda>r. id_key (col r ''id_tweets'') = Some k) (tweets c) = None"
    by blast
  from none have "\<not> list_ex (\<lambda>r. id_key (col r ''id_tweets'') = Some k) (tweets c)"
    by (simp add: find_None_iff list_ex_iff)
  with assms(1,2) k have t: "tweets c' = tweets c @ [r]"
    by (auto simp: insert_tweets_def split: if_splits)
  have "find (\<lambda>r. id_key (col r ''id_tweets'') = Some k) (tweets c @ [r]) = Some r"
    using none
  proof (rule find_snoc_new)
    show "id_key (col r ''id_tweets'') = Some k"
      unfolding assms(2) by (rule k)
  qed
  with t k show ?thesis by (simp add: select_tweets_def)
qed

subsection \<open>The rows a step writes, and that they stay\<close>

lemma list_ex_prefix: "list_ex P xs \<Longrightarrow> prefix xs ys \<Longrightarrow> list_ex P ys"
  by (auto simp: list_ex_iff dest: set_mono_prefix)

lemma in_urls_grows: "(i, u) \<in> set (urls c) \<Longrightarrow> grows c c' \<Longrightarrow> (i, u) \<in> set (urls c')"
  by (auto simp: grows_def dest: set_mono_prefix)

lemma has_user_grows: "has_user u c \<Longrightarrow> grows c c' \<Longrightarrow> has_user u c'"
  by (auto simp: has_user_def grows_def intro: list_ex_prefix)

lemma has_tweet_grows: "has_tweet t c \<Longrightarrow> grows c c' \<Longrightarrow> has_tweet t c'"
  by (auto simp: has_tweet_def grows_def intro: list_ex_prefix)

lemma has_tweet_url_grows: "has_tweet_url t i c \<Longrightarrow> grows c c' \<Longrightarrow> has_tweet_url t i c'"
  by (auto simp: has_tweet_url_def grows_def intro: list_ex_prefix)

lemma has_tweet_mention_grows:
  "has_tweet_mention t u c \<Longrightarrow> grows c c' \<Longrightarrow> has_tweet_mention t u c'"
  by (auto simp: has_tweet_mention_def grows_def intro: list_ex_prefix)

lemma has_tweet_tag_grows: "has_tweet_tag t g c \<Longrightarrow> grows c c' \<Longrightarrow> has_tweet_tag t g c'"
  by (auto simp: has_tweet_tag_def grows_def intro: list_ex_prefix)

lemma has_tweet_media_grows: "has_tweet_media t i c \<Longrightarrow> grows c c' \<Longrightarrow> has_tweet_media t i c'"
  by (auto simp: has_tweet_media_def grows_def intro: list_ex_prefix)

lemma url_rows_grows: "url_rows tid u c \<Longrightarrow> grows c c' \<Longrightarrow> url_rows tid u c'"
  unfolding url_rows_def by (blast intro: in_urls_grows has_tweet_url_grows)

lemma mention_rows_grows: "mention_rows tid m c \<Longrightarrow> grows c c' \<Longrightarrow> mention_rows tid m c'"
  unfolding mention_rows_def by (blast intro: has_user_grows has_tweet_mention_grows)

lemma tag_rows_grows: "tag_rows tid t c \<Longrightarrow> grows c c' \<Longrightarrow> tag_rows tid t c'"
  unfolding tag_rows_def by (blast intro: has_tweet_tag_grows)

lemma media_rows_grows: "media_rows tid m c \<Longrightarrow> grows c c' \<Longrightarrow> media_rows tid m c'"
  unfolding media_rows_def by (blast intro: in_urls_grows has_tweet_media_grows)

lemma insert_users_has: "insert_users r c = Inr c' \<Longrightarrow> has_user (col r ''id_users'') c'"
  by (auto simp: insert_users_def has_user_def split: option.splits if_splits)

lemma insert_tweets_has: "insert_tweets r c = Inr c' \<Longrightarrow> has_tweet (col r ''id_tweets'') c'"
  by (auto simp: insert_tweets_def has_tweet_def split: option.splits if_splits)

lemma insert_tweet_urls_has: "insert_tweet_urls t i c = Inr c' \<Longrightarrow> has_tweet_url t i c'"
  by (auto simp: insert_tweet_urls_def has_tweet_url_def list_ex_iff
      split: option.splits if_splits)

lemma insert_tweet_mentions_has:
  "insert_tweet_mentions t u c = Inr c' \<Longrightarrow> has_tweet_mention t u c'"
  by (auto simp: insert_tweet_mentions_def has_tweet_mention_def list_ex_iff
      split: option.splits if_splits)

lemma insert_tweet_tags_has: "insert_tweet_tags t g c = Inr c' \<Longrightarrow> has_tweet_tag t g c'"
  by (auto simp: insert_tweet_tags_def has_tweet_tag_def list_ex_iff
      split: option.splits if_splits)

lemma insert_tweet_media_has:
  "insert_tweet_media t i ty c = Inr c' \<Longrightarrow> has_tweet_media t i c'"
  by (auto simp: insert_tweet_media_def has_tweet_media_def list_ex_iff
      split: option.splits if_splits)

lemma find_Some_in: "find P xs = Some x \<Longrightarrow> x \<in> set xs \<and> P x"
  by (auto simp: find_Some_iff)

lemma get_id_urls_has:
  assumes "get_id_urls u c = Inr ci"
  shows "(snd ci, u) \<in> set (urls (fst ci))"
proof -
  from assms obtain cr where ins: "insert_urls u c = Inr cr" and
    res: "(case snd cr of
            Some i \<Rightarrow> Inr (fst cr, i)
          | None \<Rightarrow> (case select_urls u (fst cr) of
                       None \<Rightarrow> Inl (TypeError, urls_seq (fst cr))
                     | Some i \<Rightarrow> Inr (fst cr, i))) = Inr ci"
    by (auto simp: get_id_urls_def bnd_eq_Inr)
  show ?thesis
  proof (cases "snd cr")
    case (Some i)
    with res have ci: "ci = (fst cr, i)" by simp
    from ins Some have "(i, u) \<in> set (urls (fst cr))"
      by (auto simp: insert_urls_def split: if_splits)
    with ci show ?thesis by simp
  next
    case None
    with res obtain i where sel: "select_urls u (fst cr) = Some i" and ci: "ci = (fst cr, i)"
      by (auto split: option.splits)
    from sel obtain r where "find (\<lambda>r. snd r = u) (urls (fst cr)) = Some r" and "fst r = i"
      by (auto simp: select_urls_def split: if_splits)
    from find_Some_in [OF this(1)] \<open>fst r = i\<close> have "(i, u) \<in> set (urls (fst cr))"
      by (cases r) auto
    with ci show ?thesis by simp
  qed
qed

lemma for_each_rows:
  assumes step: "\<And>x c c'. f x c = Inr c' \<Longrightarrow> grows c c' \<and> Q x c'"
    and mono: "\<And>x c c'. Q x c \<Longrightarrow> grows c c' \<Longrightarrow> Q x c'"
  shows "for_each f xs c = Inr c' \<Longrightarrow> grows c c' \<and> (\<forall>x\<in>set xs. Q x c')"
proof (induction xs arbitrary: c)
  case Nil
  then show ?case by simp
next
  case (Cons x xs)
  then obtain c1 where 1: "f x c = Inr c1" and 2: "for_each f xs c1 = Inr c'"
    by (auto split: sum.splits)
  from step [OF 1] have g1: "grows c c1" and q: "Q x c1" by simp_all
  from Cons.IH [OF 2] have g2: "grows c1 c'" and rest: "\<forall>x\<in>set xs. Q x c'" by simp_all
  from mono [OF q g2] rest grows_trans [OF g1 g2] show ?case by simp
qed

lemma tweet_urls_step_rows:
  assumes "tweet_urls_step tweet u c = Inr c'" and tid: "getitem tweet ''id'' = Inr tid"
  shows "url_rows tid u c'"
proof -
  from assms obtain url ci where
    1: "getitem u ''expanded_url'' = Inr url" and
    2: "get_id_urls url c = Inr ci" and
    3: "insert_tweet_urls tid (snd ci) (fst ci) = Inr c'"
    unfolding tweet_urls_step_def by (auto simp: bnd_eq_Inr)
  from get_id_urls_has [OF 2] frame_grows [OF insert_tweet_urls_frame [OF 3]]
  have "(snd ci, url) \<in> set (urls c')" by (rule in_urls_grows)
  with 1 insert_tweet_urls_has [OF 3] show ?thesis
    unfolding url_rows_def by blast
qed

lemma col_single [simp]: "col [(k, v)] k = v"
  by (simp add: col_def)

lemma tweet_mentions_step_rows:
  assumes "tweet_mentions_step tweet m c = Inr c'" and tid: "getitem tweet ''id'' = Inr tid"
  shows "mention_rows tid m c'"
proof -
  from assms obtain mid c1 where
    1: "getitem m ''id'' = Inr mid" and
    2: "insert_users [(''id_users'', mid)] c = Inr c1" and
    3: "insert_tweet_mentions tid mid c1 = Inr c'"
    unfolding tweet_mentions_step_def by (auto simp: bnd_eq_Inr)
  from insert_users_has [OF 2] have "has_user mid c1" by simp
  from this frame_grows [OF insert_tweet_mentions_frame [OF 3]]
  have "has_user mid c'" by (rule has_user_grows)
  with 1 insert_tweet_mentions_has [OF 3] show ?thesis
    unfolding mention_rows_def by blast
qed

lemma tweet_tags_step_rows:
  assumes "tweet_tags_step tweet g c = Inr c'" and tid: "getitem tweet ''id'' = Inr tid"
  shows "tag_rows tid g c'"
proof -
  from assms obtain t where
    1: "remove_nulls g = Inr t" and 2: "insert_tweet_tags tid t c = Inr c'"
    unfolding tweet_tags_step_def by (auto simp: bnd_eq_Inr)
  with insert_tweet_tags_has [OF 2] show ?thesis
    unfolding tag_rows_def by blast
qed

lemma tweet_media_step_rows:
  assumes "tweet_media_step tweet m c = Inr c'" and tid: "getitem tweet ''id'' = Inr tid"
  shows "media_rows tid m c'"
proof -
  from assms obtain url ci ty where
    1: "getitem m ''media_url'' = Inr url" and
    2: "get_id_urls url c = Inr ci" and
    3: "insert_tweet_media tid (snd ci) ty (fst ci) = Inr c'"
    unfolding tweet_media_step_def by (auto simp: bnd_eq_Inr)
  from get_id_urls_has [OF 2] frame_grows [OF insert_tweet_media_frame [OF 3]]
  have "(snd ci, url) \<in> set (urls c')" by (rule in_urls_grows)
  with 1 insert_tweet_media_has [OF 3] show ?thesis
    unfolding media_rows_def by blast
qed

lemma insert_urls_of_rows:
  assumes "insert_urls_of tweet c = Inr c'" and tid: "getitem tweet ''id'' = Inr tid"
  shows "\<exists>us. bnd (urls_of tweet) py_iter = Inr us \<and> (\<forall>u\<in>set us. url_rows tid u c')"
proof -
  from assms(1) obtain us where
    1: "bnd (urls_of tweet) py_iter = Inr us" and
    2: "for_each (tweet_urls_step tweet) us c = Inr c'"
    unfolding insert_urls_of_def by (auto simp: bnd_eq_Inr)
  have "grows c c' \<and> (\<forall>u\<in>set us. url_rows tid u c')"
    using _ _ 2
  proof (rule for_each_rows)
    show "grows a b \<and> url_rows tid u b" if "tweet_urls_step tweet u a = Inr b" for u a b
      using that tid by (simp add: frame_grows tweet_urls_step_frame tweet_urls_step_rows)
  qed (rule url_rows_grows)
  with 1 show ?thesis by blast
qed

lemma insert_mentions_of_rows:
  assumes "insert_mentions_of tweet c = Inr c'" and tid: "getitem tweet ''id'' = Inr tid"
  shows "\<exists>ms. bnd (mentions_of tweet) py_iter = Inr ms \<and> (\<forall>m\<in>set ms. mention_rows tid m c')"
proof -
  from assms(1) obtain ms where
    1: "bnd (mentions_of tweet) py_iter = Inr ms" and
    2: "for_each (tweet_mentions_step tweet) ms c = Inr c'"
    unfolding insert_mentions_of_def by (auto simp: bnd_eq_Inr)
  have "grows c c' \<and> (\<forall>m\<in>set ms. mention_rows tid m c')"
    using _ _ 2
  proof (rule for_each_rows)
    show "grows a b \<and> mention_rows tid m b" if "tweet_mentions_step tweet m a = Inr b" for m a b
      using that tid
      by (simp add: frame_grows tweet_mentions_step_frame tweet_mentions_step_rows)
  qed (rule mention_rows_grows)
  with 1 show ?thesis by blast
qed

lemma insert_tags_of_rows:
  assumes "insert_tags_of tweet c = Inr c'" and tid: "getitem tweet ''id'' = Inr tid"
  shows "\<exists>tags. tags_of tweet = Inr tags \<and> (\<forall>t\<in>set tags. tag_rows tid t c')"
proof -
  from assms(1) obtain tags where
    1: "tags_of tweet = Inr tags" and
    2: "for_each (tweet_tags_step tweet) tags c = Inr c'"
    unfolding insert_tags_of_def by (auto simp: bnd_eq_Inr)
  have "grows c c' \<and> (\<forall>t\<in>set tags. tag_rows tid t c')"
    using _ _ 2
  proof (rule for_each_rows)
    show "grows a b \<and> tag_rows tid t b" if "tweet_tags_step tweet t a = Inr b" for t a b
      using that tid by (simp add: frame_grows tweet_tags_step_frame tweet_tags_step_rows)
  qed (rule tag_rows_grows)
  with 1 show ?thesis by blast
qed

lemma insert_media_of_rows:
  assumes "insert_media_of tweet c = Inr c'" and tid: "getitem tweet ''id'' = Inr tid"
  shows "\<exists>ms. bnd (media_of tweet) py_iter = Inr ms \<and> (\<forall>m\<in>set ms. media_rows tid m c')"
proof -
  from assms(1) obtain ms where
    1: "bnd (media_of tweet) py_iter = Inr ms" and
    2: "for_each (tweet_media_step tweet) ms c = Inr c'"
    unfolding insert_media_of_def by (auto simp: bnd_eq_Inr)
  have "grows c c' \<and> (\<forall>m\<in>set ms. media_rows tid m c')"
    using _ _ 2
  proof (rule for_each_rows)
    show "grows a b \<and> media_rows tid m b" if "tweet_media_step tweet m a = Inr b" for m a b
      using that tid by (simp add: frame_grows tweet_media_step_frame tweet_media_step_rows)
  qed (rule media_rows_grows)
  with 1 show ?thesis by blast
qed

lemma insert_user_row_has:
  assumes "insert_user_row tweet u c = Inr c'"
  shows "\<exists>uid. getpath tweet [''user'', ''id''] = Inr uid \<and> has_user (JStr (py_str uid)) c'"
proof -
  from assms obtain uid r where
    1: "getpath tweet [''user'', ''id''] = Inr uid" and
    2: "insert_users ((''id_users'', JStr (py_str uid)) # r) c = Inr c'"
    unfolding insert_user_row_def by (auto simp: bnd_eq_Inr)
  from insert_users_has [OF 2] have "has_user (JStr (py_str uid)) c'"
    by (simp add: col_def)
  with 1 show ?thesis by blast
qed

lemma insert_user_rows:
  assumes "insert_user tweet c = Inr c'"
  shows "\<exists>uid purl. getpath tweet [''user'', ''id''] = Inr uid \<and>
           getpath tweet [''user'', ''url''] = Inr purl \<and> has_user (JStr (py_str uid)) c' \<and>
           (purl \<noteq> JNull \<longrightarrow> (\<exists>i. (i, purl) \<in> set (urls c')))"
proof -
  from assms obtain purl cu where
    1: "getpath tweet [''user'', ''url''] = Inr purl" and
    2: "(if purl = JNull then Inr (c, JNull)
         else bnd (get_id_urls purl c) (\<lambda>ci. Inr (fst ci, JInt (int (snd ci))))) = Inr cu" and
    3: "insert_user_row tweet (snd cu) (fst cu) = Inr c'"
    unfolding insert_user_def by (auto simp: bnd_eq_Inr)
  from insert_user_row_has [OF 3] obtain uid where
    4: "getpath tweet [''user'', ''id''] = Inr uid" "has_user (JStr (py_str uid)) c'"
    by blast
  have "\<exists>i. (i, purl) \<in> set (urls c')" if "purl \<noteq> JNull"
  proof -
    from 2 that obtain ci where g: "get_id_urls purl c = Inr ci" and "fst cu = fst ci"
      by (auto simp: bnd_eq_Inr)
    from get_id_urls_has [OF g] \<open>fst cu = fst ci\<close> have "(snd ci, purl) \<in> set (urls (fst cu))"
      by simp
    from this frame_grows [OF insert_user_row_frame [OF 3]]
    have "(snd ci, purl) \<in> set (urls c')" by (rule in_urls_grows)
    then show ?thesis ..
  qed
  with 1 4 show ?thesis by blast
qed

lemma insert_reply_user_rows:
  assumes "insert_reply_user tweet c = Inr c'"
  shows "\<exists>rid. py_get tweet ''in_reply_to_user_id'' = Inr rid \<and>
           (rid \<noteq> JNull \<longrightarrow> has_user (JStr (py_str rid)) c')"
proof -
  from assms obtain rid where
    1: "py_get tweet ''in_reply_to_user_id'' = Inr rid" and
    2: "(if rid \<noteq> JNull then insert_users [(''id_users'', JStr (py_str rid))] c else Inr c) = Inr c'"
    unfolding insert_reply_user_def by (auto simp: bnd_eq_Inr)
  have "has_user (JStr (py_str rid)) c'" if "rid \<noteq> JNull"
  proof -
    from 2 that have "insert_users [(''id_users'', JStr (py_str rid))] c = Inr c'" by simp
    from insert_users_has [OF this] show ?thesis by simp
  qed
  with 1 show ?thesis by blast
qed

subsection \<open>The block\<close>

lemma insert_tweet_body_present:
  assumes "getitem tweet ''id'' = Inr tid"
    and "select_tweets (JStr (py_str tid)) c = Inr (Some row)"
  shows "insert_tweet_body tweet c = Inr c"
  using assms by (simp add: insert_tweet_body_def)

lemma insert_tweet_body_check:
  assumes "insert_tweet_body tweet c = Inr c'"
  obtains tid res where "getitem tweet ''id'' = Inr tid"
    and "select_tweets (JStr (py_str tid)) c = Inr res"
  using assms unfolding insert_tweet_body_def by (auto simp: bnd_eq_Inr)

lemma insert_tweet_body_steps:
  assumes "insert_tweet_body tweet c = Inr c'"
    and "getitem tweet ''id'' = Inr tid"
    and "select_tweets (JStr (py_str tid)) c = Inr None"
  obtains c2 f c3 c4 c5 c6 c7 where
    "insert_user tweet c = Inr c2" and
    "prepare_fields tweet = Inr f" and
    "insert_reply_user tweet c2 = Inr c3" and
    "insert_tweet_row tweet f c3 = Inr c4" and
    "insert_urls_of tweet c4 = Inr c5" and
    "insert_mentions_of tweet c5 = Inr c6" and
    "insert_tags_of tweet c6 = Inr c7" and
    "insert_media_of tweet c7 = Inr c'"
  using assms unfolding insert_tweet_body_def by (auto simp: bnd_eq_Inr)

text \<open>The block, when the post was not stored before and no step raises.\<close>

lemma insert_tweet_body_new:
  assumes body: "insert_tweet_body tweet c = Inr c'"
    and tid: "getitem tweet ''id'' = Inr tid"
    and sel: "select_tweets (JStr (py_str tid)) c = Inr None"
  shows "\<exists>r. tweets c' = tweets c @ [r] \<and> select_tweets (JStr (py_str tid)) c' = Inr (Some r) \<and>
           map_of r ''geo'' = Some JNull"
proof -
  from body tid sel obtain c2 f c3 c4 c5 c6 c7 where
    s2: "insert_user tweet c = Inr c2" and
    s3: "insert_reply_user tweet c2 = Inr c3" and
    s4: "insert_tweet_row tweet f c3 = Inr c4" and
    s5: "insert_urls_of tweet c4 = Inr c5" and
    s6: "insert_mentions_of tweet c5 = Inr c6" and
    s7: "insert_tags_of tweet c6 = Inr c7" and
    s8: "insert_media_of tweet c7 = Inr c'"
    by (rule insert_tweet_body_steps)
  have before: "frame c c3"
    using insert_user_frame [OF s2] insert_reply_user_frame [OF s3] by (rule frame_trans)
  have after: "frame c4 c'"
    using insert_urls_of_frame [OF s5] insert_mentions_of_frame [OF s6]
      insert_tags_of_frame [OF s7] insert_media_of_frame [OF s8]
    by (blast intro: frame_trans)
  from insert_tweet_row_effect [OF s4] tid obtain r where
    ins: "insert_tweets r c3 = Inr c4" and
    key: "col r ''id_tweets'' = JStr (py_str tid)" and
    geo: "map_of r ''geo'' = Some JNull"
    by auto
  from before have t3: "tweets c3 = tweets c" by (rule frame_tweets)
  from sel have "select_tweets (JStr (py_str tid)) c3 = Inr None"
    by (simp add: select_tweets_tweets [OF t3])
  from insert_tweets_new [OF ins key this]
  have 4: "tweets c4 = tweets c3 @ [r]" "select_tweets (JStr (py_str tid)) c4 = Inr (Some r)"
    by simp_all
  from after have t': "tweets c' = tweets c4" by (rule frame_tweets)
  show ?thesis
    using 4 geo t3 by (auto simp: t' select_tweets_tweets [OF t'])
qed

lemma insert_tweet_body_grows:
  assumes "insert_tweet_body tweet c = Inr c'"
  shows "grows c c'"
proof -
  from assms obtain tid res where tid: "getitem tweet ''id'' = Inr tid"
    and sel: "select_tweets (JStr (py_str tid)) c = Inr res"
    by (rule insert_tweet_body_check)
  show ?thesis
  proof (cases res)
    case (Some row)
    with assms tid sel have "c' = c"
      by (simp add: insert_tweet_body_def)
    then show ?thesis by simp
  next
    case None
    with assms tid sel obtain c2 f c3 c4 c5 c6 c7 where
      s2: "insert_user tweet c = Inr c2" and
      s3: "insert_reply_user tweet c2 = Inr c3" and
      s4: "insert_tweet_row tweet f c3 = Inr c4" and
      s5: "insert_urls_of tweet c4 = Inr c5" and
      s6: "insert_mentions_of tweet c5 = Inr c6" and
      s7: "insert_tags_of tweet c6 = Inr c7" and
      s8: "insert_media_of tweet c7 = Inr c'"
      by (auto elim: insert_tweet_body_steps)
    have "grows c c3"
      using insert_user_frame [OF s2] insert_reply_user_frame [OF s3]
      by (blast intro: frame_trans frame_grows)
    moreover from insert_tweet_row_effect [OF s4] have "grows c3 c4"
      by (auto dest: insert_tweets_grows)
    moreover have "grows c4 c'"
      using insert_urls_of_frame [OF s5] insert_mentions_of_frame [OF s6]
        insert_tags_of_frame [OF s7] insert_media_of_frame [OF s8]
      by (blast intro: frame_trans frame_grows)
    ultimately show ?thesis by (blast intro: grows_trans)
  qed
qed

lemma insert_tweet_body_users:
  assumes "insert_tweet_body tweet c = Inr c'"
  shows "prefix (users c) (users c')"
  using insert_tweet_body_grows [OF assms] by (simp add: grows_def)

lemma insert_tweet_body_rows:
  assumes body: "insert_tweet_body tweet c = Inr c'"
    and tid: "getitem tweet ''id'' = Inr tid"
    and sel: "select_tweets (JStr (py_str tid)) c = Inr None"
  shows "record_rows tweet c'"
proof -
  from body tid sel obtain c2 f c3 c4 c5 c6 c7 where
    s2: "insert_user tweet c = Inr c2" and
    s3: "insert_reply_user tweet c2 = Inr c3" and
    s4: "insert_tweet_row tweet f c3 = Inr c4" and
    s5: "insert_urls_of tweet c4 = Inr c5" and
    s6: "insert_mentions_of tweet c5 = Inr c6" and
    s7: "insert_tags_of tweet c6 = Inr c7" and
    s8: "insert_media_of tweet c7 = Inr c'"
    by (rule insert_tweet_body_steps)
  note g3 = frame_grows [OF insert_reply_user_frame [OF s3]]
  from insert_tweet_row_effect [OF s4] tid obtain r where
    ins: "insert_tweets r c3 = Inr c4" and key: "col r ''id_tweets'' = JStr (py_str tid)"
    by auto
  note g4 = insert_tweets_grows [OF ins]
  note g5 = frame_grows [OF insert_urls_of_frame [OF s5]]
  note g6 = frame_grows [OF insert_mentions_of_frame [OF s6]]
  note g7 = frame_grows [OF insert_tags_of_frame [OF s7]]
  note g8 = frame_grows [OF insert_media_of_frame [OF s8]]
  have g78: "grows c6 c'" using g7 g8 by (rule grows_trans)
  have g68: "grows c5 c'" using g6 g78 by (rule grows_trans)
  have g58: "grows c4 c'" using g5 g68 by (rule grows_trans)
  have g48: "grows c3 c'" using g4 g58 by (rule grows_trans)
  have g38: "grows c2 c'" using g3 g48 by (rule grows_trans)
  from insert_user_rows [OF s2] obtain uid purl where
    u: "getpath tweet [''user'', ''id''] = Inr uid" "getpath tweet [''user'', ''url''] = Inr purl"
      "has_user (JStr (py_str uid)) c2" "purl \<noteq> JNull \<longrightarrow> (\<exists>i. (i, purl) \<in> set (urls c2))"
    by blast
  from insert_reply_user_rows [OF s3] obtain rid where
    r: "py_get tweet ''in_reply_to_user_id'' = Inr rid"
      "rid \<noteq> JNull \<longrightarrow> has_user (JStr (py_str rid)) c3"
    by blast
  from insert_urls_of_rows [OF s5 tid] obtain us where
    us: "bnd (urls_of tweet) py_iter = Inr us" "\<forall>u\<in>set us. url_rows tid u c5"
    by blast
  from insert_mentions_of_rows [OF s6 tid] obtain ms where
    ms: "bnd (mentions_of tweet) py_iter = Inr ms" "\<forall>m\<in>set ms. mention_rows tid m c6"
    by blast
  from insert_tags_of_rows [OF s7 tid] obtain tags where
    tags: "tags_of tweet = Inr tags" "\<forall>t\<in>set tags. tag_rows tid t c7"
    by blast
  from insert_media_of_rows [OF s8 tid] obtain media where
    media: "bnd (media_of tweet) py_iter = Inr media" "\<forall>m\<in>set media. media_rows tid m c'"
    by blast
  from insert_tweets_has [OF ins] key have "has_tweet (JStr (py_str tid)) c4" by simp
  then have p1: "has_tweet (JStr (py_str tid)) c'"
    using g58 by (rule has_tweet_grows)
  have p2: "has_user (JStr (py_str uid)) c'"
    using u(3) g38 by (rule has_user_grows)
  have p3: "purl \<noteq> JNull \<longrightarrow> (\<exists>i. (i, purl) \<in> set (urls c'))"
    using u(4) g38 by (blast intro: in_urls_grows)
  have p4: "rid \<noteq> JNull \<longrightarrow> has_user (JStr (py_str rid)) c'"
    using r(2) g48 by (blast intro: has_user_grows)
  have p5: "\<forall>u\<in>set us. url_rows tid u c'"
    using us(2) g68 by (blast intro: url_rows_grows)
  have p6: "\<forall>m\<in>set ms. mention_rows tid m c'"
    using ms(2) g78 by (blast intro: mention_rows_grows)
  have p7: "\<forall>t\<in>set tags. tag_rows tid t c'"
    using tags(2) g8 by (blast intro: tag_rows_grows)
  show ?thesis
    unfolding record_rows_def
    using tid u(1,2) r(1) us(1) ms(1) tags(1) media(1) p1 p2 p3 p4 p5 p6 p7 media(2)
    by blast
qed

lemma insert_tweet_cases:
  obtains (ok) c' where "insert_tweet_body tweet c = Inr c'"
      and "insert_tweet c tweet = (c', Inr ())"
  | (raised) e n where "insert_tweet_body tweet c = Inl (e, n)"
      and "insert_tweet c tweet = (c\<lparr>urls_seq := n\<rparr>, Inl e)"
proof (cases "insert_tweet_body tweet c")
  case (Inl en)
  then have 1: "insert_tweet_body tweet c = Inl (fst en, snd en)" by simp
  then have "insert_tweet c tweet = (c\<lparr>urls_seq := snd en\<rparr>, Inl (fst en))"
    by (simp add: insert_tweet_def transaction_def)
  with 1 show ?thesis by (rule raised)
next
  case (Inr c')
  then have "insert_tweet c tweet = (c', Inr ())"
    by (simp add: insert_tweet_def transaction_def)
  with Inr show ?thesis by (rule ok)
qed

subsection \<open>Runs of the example records\<close>

lemma insert_tweet_a: "insert_tweet empty_db tweet_a = (db_a, Inr ())"
  by code_simp

lemma geo_fields_a: "geo_fields tweet_a = Inr (Point (JList [JFloat ''1.5'', JFloat ''2.5'']))"
  by code_simp

lemma geo_fields_place:
  "geo_fields tweet_place = Inr (MultiPolygon
     [[(JFloat ''-71.2'', JFloat ''42.2''), (JFloat ''-71.2'', JFloat ''42.4''),
       (JFloat ''-70.9'', JFloat ''42.4''), (JFloat ''-70.9'', JFloat ''42.2''),
       (JFloat ''-71.2'', JFloat ''42.2'')]])"
  by code_simp

lemma insert_tweet_place_ok: "snd (insert_tweet db_a tweet_place) = Inr ()"
  by code_simp

lemma insert_tweet_b_ok: "snd (insert_tweet db_a tweet_b) = Inr ()"
  by code_simp

lemma insert_tweet_late:
  "insert_tweet empty_db tweet_late = (empty_db\<lparr>urls_seq := 3\<rparr>, Inl KeyError)"
  by code_simp

lemma insert_user_late:
  "map_sum id (\<lambda>c2. (length (urls c2), length (users c2))) (insert_user tweet_late empty_db)
     = Inr (1, 1)"
  by code_simp

lemma tweet_a_new:
  "getitem tweet_a ''id'' = Inr (JInt 1)"
  "select_tweets (JStr (py_str (JInt 1))) empty_db = Inr None"
  by code_simp+

subsection \<open>Atomicity\<close>

text \<open>
  C1. Ingesting one record is atomic. When a step raises, the exception reaches the
  caller, every table has the rows it had before the call, whatever steps 2 to 8 had
  written, and the check of step 1 does not find the post, so a later call runs the block
  again. When \<open>insert_tweet\<close> raises nothing, no row of before is lost and, for a post not
  stored before, every row of the record is there together: the author's row, the post's
  row and the rows of every url, mention, tag and media entity; for a post stored before,
  the database is as it was.
\<close>

theorem insert_tweet_atomic:
  "(snd (insert_tweet c tweet) = Inl e \<longrightarrow>
      same_rows c (fst (insert_tweet c tweet)) \<and>
      \<not> (\<exists>tid row. getitem tweet ''id'' = Inr tid \<and>
            select_tweets (JStr (py_str tid)) (fst (insert_tweet c tweet)) = Inr (Some row))) \<and>
   (snd (insert_tweet c tweet) = Inr () \<longrightarrow>
      grows c (fst (insert_tweet c tweet)) \<and>
      (\<forall>tid. getitem tweet ''id'' = Inr tid \<and> select_tweets (JStr (py_str tid)) c = Inr None
         \<longrightarrow> record_rows tweet (fst (insert_tweet c tweet))) \<and>
      (\<forall>tid row. getitem tweet ''id'' = Inr tid \<and>
           select_tweets (JStr (py_str tid)) c = Inr (Some row)
         \<longrightarrow> fst (insert_tweet c tweet) = c))"
proof (cases c tweet rule: insert_tweet_cases)
  case (ok c')
  have "record_rows tweet c'"
    if "getitem tweet ''id'' = Inr tid \<and> select_tweets (JStr (py_str tid)) c = Inr None" for tid
    using that insert_tweet_body_rows [OF ok(1)] by blast
  moreover have "c' = c"
    if "getitem tweet ''id'' = Inr tid \<and> select_tweets (JStr (py_str tid)) c = Inr (Some row)"
    for tid row
    using that ok(1) insert_tweet_body_present [of tweet tid c row] by simp
  ultimately show ?thesis
    using insert_tweet_body_grows [OF ok(1)] by (simp add: ok(2)) blast
next
  case (raised e' n)
  have "\<not> (\<exists>tid row. getitem tweet ''id'' = Inr tid \<and>
      select_tweets (JStr (py_str tid)) (c\<lparr>urls_seq := n\<rparr>) = Inr (Some row))"
  proof
    assume "\<exists>tid row. getitem tweet ''id'' = Inr tid \<and>
      select_tweets (JStr (py_str tid)) (c\<lparr>urls_seq := n\<rparr>) = Inr (Some row)"
    moreover have "select_tweets p (c\<lparr>urls_seq := n\<rparr>) = select_tweets p c" for p
      by (rule select_tweets_tweets) simp
    ultimately obtain tid row where "getitem tweet ''id'' = Inr tid"
      "select_tweets (JStr (py_str tid)) c = Inr (Some row)"
      by auto
    then have "insert_tweet_body tweet c = Inr c"
      by (rule insert_tweet_body_present)
    with raised(1) show False by simp
  qed
  then show ?thesis
    by (simp add: raised(2) same_rows_def)
qed

theorem insert_tweet_atomic_witness:
  "insert_tweet empty_db tweet_late = (empty_db\<lparr>urls_seq := 3\<rparr>, Inl KeyError) \<and>
   map_sum id (\<lambda>c2. (length (urls c2), length (users c2))) (insert_user tweet_late empty_db)
     = Inr (1, 1) \<and>
   same_rows empty_db (fst (insert_tweet empty_db tweet_late)) \<and>
   insert_tweet empty_db tweet_a = (db_a, Inr ()) \<and>
   grows empty_db db_a \<and>
   record_rows tweet_a db_a"
proof -
  from insert_tweet_atomic [of empty_db tweet_late KeyError] insert_tweet_late
  have 1: "same_rows empty_db (fst (insert_tweet empty_db tweet_late))"
    by simp
  from insert_tweet_atomic [of empty_db tweet_a] insert_tweet_a tweet_a_new
  have 2: "grows empty_db db_a" "record_rows tweet_a db_a"
    by auto
  from 1 2 insert_tweet_late insert_user_late insert_tweet_a show ?thesis
    by simp
qed

subsection \<open>Idempotence\<close>

text \<open>
  C2, as the spec states it, fails: the second call reports no outcome. The call that
  stores the post and the call that finds it stored return the same value, \<open>None\<close>.
\<close>

theorem insert_tweet_outcome_counterexample:
  "select_tweets (JStr (py_str (JInt 1))) empty_db = Inr None \<and>
   insert_tweet empty_db tweet_a = (db_a, Inr ()) \<and>
   map_sum id (map_option (\<lambda>r. col r ''id_tweets'')) (select_tweets (JStr (py_str (JInt 1))) db_a)
     = Inr (Some (JStr ''1'')) \<and>
   insert_tweet db_a tweet_a = (db_a, Inr ()) \<and>
   snd (insert_tweet db_a tweet_a) = snd (insert_tweet empty_db tweet_a)"
  by code_simp

text \<open>
  C2, amended. When the post is already stored, \<open>insert_tweet\<close> returns at the check of
  step 1 and writes nothing: the database is as it was. So after a call that raised
  nothing, a second call on the same record leaves exactly the database the first call
  left, its check finding the post; it returns \<open>None\<close>, as the first call did.
\<close>

theorem insert_tweet_idempotent:
  "(getitem tweet ''id'' = Inr tid \<and> select_tweets (JStr (py_str tid)) c = Inr (Some row)
      \<longrightarrow> insert_tweet c tweet = (c, Inr ())) \<and>
   (insert_tweet c tweet = (c1, Inr ()) \<longrightarrow>
      insert_tweet c1 tweet = (c1, Inr ()) \<and>
      (\<exists>tid row. getitem tweet ''id'' = Inr tid \<and>
         select_tweets (JStr (py_str tid)) c1 = Inr (Some row)))"
proof (intro conjI impI)
  assume "getitem tweet ''id'' = Inr tid \<and> select_tweets (JStr (py_str tid)) c = Inr (Some row)"
  then have "insert_tweet_body tweet c = Inr c"
    by (simp add: insert_tweet_body_present)
  then show "insert_tweet c tweet = (c, Inr ())"
    by (simp add: insert_tweet_def transaction_def)
next
  assume first: "insert_tweet c tweet = (c1, Inr ())"
  then have ok: "insert_tweet_body tweet c = Inr c1"
    by (cases c tweet rule: insert_tweet_cases) simp_all
  from ok obtain tid res where tid: "getitem tweet ''id'' = Inr tid"
    and sel: "select_tweets (JStr (py_str tid)) c = Inr res"
    by (rule insert_tweet_body_check)
  have "\<exists>row. select_tweets (JStr (py_str tid)) c1 = Inr (Some row)"
  proof (cases res)
    case None
    with insert_tweet_body_new [OF ok tid] sel show ?thesis by auto
  next
    case (Some row)
    with ok tid sel have "c1 = c"
      by (simp add: insert_tweet_body_def)
    with sel Some show ?thesis by auto
  qed
  with tid show found: "\<exists>tid row. getitem tweet ''id'' = Inr tid \<and>
      select_tweets (JStr (py_str tid)) c1 = Inr (Some row)"
    by blast
  then have "insert_tweet_body tweet c1 = Inr c1"
    by (auto intro: insert_tweet_body_present)
  then show "insert_tweet c1 tweet = (c1, Inr ())"
    by (simp add: insert_tweet_def transaction_def)
qed

theorem insert_tweet_idempotent_witness:
  "insert_tweet empty_db tweet_a = (db_a, Inr ()) \<and>
   insert_tweet db_a tweet_a = (db_a, Inr ()) \<and>
   (\<exists>tid row. getitem tweet_a ''id'' = Inr tid \<and>
      select_tweets (JStr (py_str tid)) db_a = Inr (Some row))"
  using insert_tweet_idempotent [of tweet_a _ empty_db _ db_a] insert_tweet_a
  by simp

subsection \<open>Author rows\<close>

text \<open>
  C8. When an author identifier has a row in \<open>users\<close>, an author insert for that
  identifier, the stub form or the full form, writes nothing (it raises when its row
  cannot be bound), and after \<open>insert_tweet\<close> on any record the identifier still has the
  same row, field for field. So a stub stays a stub when the author's own record is
  ingested, and a stub never replaces a fuller row.
\<close>

theorem author_rows_never_overwritten:
  assumes "find (\<lambda>r. id_key (col r ''id_users'') = Some k) (users c) = Some r0"
  shows "(id_key (col r ''id_users'') = Some k \<longrightarrow>
            (bindable_row r \<longrightarrow> insert_users r c = Inr c) \<and>
            (\<not> bindable_row r \<longrightarrow> insert_users r c = Inl StorageError)) \<and>
         find (\<lambda>r. id_key (col r ''id_users'') = Some k) (users (fst (insert_tweet c tweet)))
           = Some r0"
proof
  from assms have "list_ex (\<lambda>r. id_key (col r ''id_users'') = Some k) (users c)"
    by (auto simp: list_ex_iff find_Some_iff)
  then show "id_key (col r ''id_users'') = Some k \<longrightarrow>
      (bindable_row r \<longrightarrow> insert_users r c = Inr c) \<and>
      (\<not> bindable_row r \<longrightarrow> insert_users r c = Inl StorageError)"
    by (simp add: insert_users_def)
next
  show "find (\<lambda>r. id_key (col r ''id_users'') = Some k) (users (fst (insert_tweet c tweet)))
      = Some r0"
  proof (cases c tweet rule: insert_tweet_cases)
    case (raised e n)
    with assms show ?thesis by simp
  next
    case (ok c')
    from insert_tweet_body_users [OF ok(1)] have "prefix (users c) (users c')" .
    with assms have "find (\<lambda>r. id_key (col r ''id_users'') = Some k) (users c') = Some r0"
      by (rule find_prefix)
    with ok(2) show ?thesis by simp
  qed
qed

theorem author_rows_never_overwritten_witness:
  "find (\<lambda>r. id_key (col r ''id_users'') = Some 4) (users db_a) = Some [(''id_users'', JInt 4)] \<and>
   getpath tweet_b [''user'', ''id''] = Inr (JInt 4) \<and>
   snd (insert_tweet db_a tweet_b) = Inr () \<and>
   find (\<lambda>r. id_key (col r ''id_users'') = Some 4) (users (fst (insert_tweet db_a tweet_b)))
     = Some [(''id_users'', JInt 4)] \<and>
   insert_users [(''id_users'', JStr ''4''), (''screen_name'', JStr ''bob'')] db_a = Inr db_a"
proof -
  have h: "find (\<lambda>r. id_key (col r ''id_users'') = Some 4) (users db_a)
      = Some [(''id_users'', JInt 4)]"
    by code_simp
  have k: "id_key (col [(''id_users'', JStr ''4''), (''screen_name'', JStr ''bob'')] ''id_users'')
      = Some 4"
    "bindable_row [(''id_users'', JStr ''4''), (''screen_name'', JStr ''bob'')]"
    by code_simp+
  have u: "getpath tweet_b [''user'', ''id''] = Inr (JInt 4)"
    by code_simp
  from author_rows_never_overwritten [OF h,
      of "[(''id_users'', JStr ''4''), (''screen_name'', JStr ''bob'')]" tweet_b]
    h k u insert_tweet_b_ok
  show ?thesis by blast
qed

subsection \<open>The geography column\<close>

text \<open>
  C9. When \<open>insert_tweet\<close> stores a post, the one row it adds to \<open>tweets\<close> is the row of
  the record's identifier, and its \<open>geo\<close> column is bound to \<open>None\<close>, whatever the
  geography block computed.
\<close>

theorem geo_column_always_null:
  assumes "insert_tweet c tweet = (c', Inr ())"
    and "getitem tweet ''id'' = Inr tid"
    and "select_tweets (JStr (py_str tid)) c = Inr None"
  shows "\<exists>r. tweets c' = tweets c @ [r] \<and>
           select_tweets (JStr (py_str tid)) c' = Inr (Some r) \<and>
           map_of r ''geo'' = Some JNull"
proof -
  from assms(1) have "insert_tweet_body tweet c = Inr c'"
    by (cases c tweet rule: insert_tweet_cases) simp_all
  from insert_tweet_body_new [OF this assms(2,3)] show ?thesis .
qed

theorem geo_column_always_null_witness:
  "geo_fields tweet_a = Inr (Point (JList [JFloat ''1.5'', JFloat ''2.5''])) \<and>
   insert_tweet empty_db tweet_a = (db_a, Inr ()) \<and>
   (\<exists>r. tweets db_a = tweets empty_db @ [r] \<and>
      select_tweets (JStr (py_str (JInt 1))) db_a = Inr (Some r) \<and>
      map_of r ''geo'' = Some JNull) \<and>
   (\<exists>rs. geo_fields tweet_place = Inr (MultiPolygon rs)) \<and>
   snd (insert_tweet db_a tweet_place) = Inr () \<and>
   (\<exists>r. tweets (fst (insert_tweet db_a tweet_place)) = tweets db_a @ [r] \<and>
      map_of r ''geo'' = Some JNull)"
proof -
  have 3: "getitem tweet_place ''id'' = Inr (JInt 7)"
    by code_simp
  have 4: "select_tweets (JStr (py_str (JInt 7))) db_a = Inr None"
    by code_simp
  have 5: "insert_tweet db_a tweet_place = (fst (insert_tweet db_a tweet_place), Inr ())"
    using insert_tweet_place_ok by (simp add: prod_eq_iff)
  from geo_column_always_null [OF insert_tweet_a tweet_a_new]
  have a: "\<exists>r. tweets db_a = tweets empty_db @ [r] \<and>
      select_tweets (JStr (py_str (JInt 1))) db_a = Inr (Some r) \<and>
      map_of r ''geo'' = Some JNull" .
  from geo_column_always_null [OF 5 3 4]
  have b: "\<exists>r. tweets (fst (insert_tweet db_a tweet_place)) = tweets db_a @ [r] \<and>
      map_of r ''geo'' = Some JNull"
    by blast
  from a b geo_fields_a geo_fields_place insert_tweet_a insert_tweet_place_ok
  show ?thesis by blast
qed

subsection \<open>The url resolver\<close>

lemma unique_find:
  assumes "distinct (filter (\<lambda>u. u \<noteq> JNull) (map snd xs))" and "(i, u) \<in> set xs" and "u \<noteq> JNull"
  shows "find (\<lambda>r. snd r = u) xs = Some (i, u) \<and> filter (\<lambda>r. snd r = u) xs = [(i, u)]"
  using assms
proof (induction xs)
  case Nil
  then show ?case by simp
next
  case (Cons x xs)
  show ?case
  proof (cases "snd x = u")
    case True
    with Cons.prems have notin: "u \<notin> snd ` set xs"
      by auto
    then have "filter (\<lambda>r. snd r = u) xs = []"
      by (auto simp: filter_empty_conv)
    moreover from notin Cons.prems(2) True have "x = (i, u)"
      by (cases x) force
    ultimately show ?thesis by simp
  next
    case False
    with Cons.prems have "(i, u) \<in> set xs" "distinct (filter (\<lambda>u. u \<noteq> JNull) (map snd xs))"
      by (auto split: if_splits)
    from Cons.IH [OF this(2,1) Cons.prems(3)] False show ?thesis by simp
  qed
qed

lemma get_id_urls_present:
  assumes "urls_unique c" and "(i, JStr s) \<in> set (urls c)" and "CHR 0x00 \<notin> set s"
  shows "get_id_urls (JStr s) c = Inr (c\<lparr>urls_seq := Suc (urls_seq c)\<rparr>, i)"
proof -
  from assms(2) have "list_ex (\<lambda>r. snd r = JStr s) (urls c)"
    by (force simp: list_ex_iff)
  moreover from unique_find [OF assms(1) [unfolded urls_unique_def] assms(2)]
  have "find (\<lambda>r. snd r = JStr s) (urls c) = Some (i, JStr s)" by simp
  ultimately show ?thesis
    using assms(3) by (simp add: get_id_urls_def insert_urls_def select_urls_def)
qed

lemma get_id_urls_absent:
  assumes "JStr s \<notin> snd ` set (urls c)" and "CHR 0x00 \<notin> set s"
  shows "get_id_urls (JStr s) c =
    Inr (c\<lparr>urls := urls c @ [(urls_seq c, JStr s)], urls_seq := Suc (urls_seq c)\<rparr>, urls_seq c)"
proof -
  from assms(1) have "\<not> list_ex (\<lambda>r. snd r = JStr s) (urls c)"
    by (force simp: list_ex_iff)
  then show ?thesis
    using assms(2) by (simp add: get_id_urls_def insert_urls_def)
qed

lemma get_id_urls_str:
  assumes "urls_unique c" and "CHR 0x00 \<notin> set s"
  shows "\<exists>c' i. get_id_urls (JStr s) c = Inr (c', i) \<and> urls_unique c' \<and>
           prefix (urls c) (urls c') \<and> (i, JStr s) \<in> set (urls c') \<and>
           snd ` set (urls c') = insert (JStr s) (snd ` set (urls c))"
proof (cases "JStr s \<in> snd ` set (urls c)")
  case True
  then obtain i where "(i, JStr s) \<in> set (urls c)" by force
  with get_id_urls_present [OF assms(1) this assms(2)] assms(1) True show ?thesis
    by (auto simp: insert_absorb urls_unique_def)
next
  case False
  from False have "JStr s \<notin> set (map snd (urls c))" by simp
  with assms(1) have "urls_unique (c\<lparr>urls := urls c @ [(urls_seq c, JStr s)],
      urls_seq := Suc (urls_seq c)\<rparr>)"
    by (simp add: urls_unique_def)
  with get_id_urls_absent [OF False assms(2)] show ?thesis
    by simp
qed

lemma resolve_all_str:
  assumes "urls_unique c" and "\<forall>s\<in>set ss. CHR 0x00 \<notin> set s"
  shows "\<exists>c' ids. resolve_all (map JStr ss) c = Inr (c', ids) \<and> urls_unique c' \<and>
           prefix (urls c) (urls c') \<and> length ids = length ss \<and>
           (\<forall>j<length ss. (ids ! j, JStr (ss ! j)) \<in> set (urls c')) \<and>
           snd ` set (urls c') = snd ` set (urls c) \<union> JStr ` set ss"
  using assms
proof (induction ss arbitrary: c)
  case Nil
  then show ?case by simp
next
  case (Cons s ss)
  from Cons.prems(2) have s: "CHR 0x00 \<notin> set s" and ss: "\<forall>s\<in>set ss. CHR 0x00 \<notin> set s"
    by simp_all
  from get_id_urls_str [OF Cons.prems(1) s] obtain c1 i where
    1: "get_id_urls (JStr s) c = Inr (c1, i)" "urls_unique c1" "prefix (urls c) (urls c1)"
       "(i, JStr s) \<in> set (urls c1)" "snd ` set (urls c1) = insert (JStr s) (snd ` set (urls c))"
    by blast
  from Cons.IH [OF 1(2) ss] obtain c' ids where
    2: "resolve_all (map JStr ss) c1 = Inr (c', ids)" "urls_unique c'"
       "prefix (urls c1) (urls c')" "length ids = length ss"
       "\<forall>j<length ss. (ids ! j, JStr (ss ! j)) \<in> set (urls c')"
       "snd ` set (urls c') = snd ` set (urls c1) \<union> JStr ` set ss"
    by blast
  from 1(4) 2(3) have here: "(i, JStr s) \<in> set (urls c')"
    by (auto dest: set_mono_prefix)
  have all: "\<forall>j<length (s # ss). ((i # ids) ! j, JStr ((s # ss) ! j)) \<in> set (urls c')"
  proof (intro allI impI)
    fix j assume "j < length (s # ss)"
    then show "((i # ids) ! j, JStr ((s # ss) ! j)) \<in> set (urls c')"
      using here 2(5) by (cases j) auto
  qed
  have "resolve_all (map JStr (s # ss)) c = Inr (c', i # ids)"
    by (simp add: 1(1) 2(1))
  moreover have "prefix (urls c) (urls c')"
    using 1(3) 2(3) by (rule prefix_order.trans)
  moreover have "snd ` set (urls c') = snd ` set (urls c) \<union> JStr ` set (s # ss)"
    using 1(5) 2(6) by auto
  ultimately show ?case
    using 2(2,4) all by (intro exI conjI) simp_all
qed

lemma insert_urls_unique: "insert_urls u c = Inr cr \<Longrightarrow> urls_unique c \<Longrightarrow> urls_unique (fst cr)"
  by (auto simp: insert_urls_def urls_unique_def list_ex_iff split: if_splits)

lemma get_id_urls_unique:
  assumes "get_id_urls u c = Inr ci" and "urls_unique c"
  shows "urls_unique (fst ci)"
proof -
  from get_id_urls_insert [OF assms(1)] obtain cr where
    1: "insert_urls u c = Inr cr" and 2: "fst ci = fst cr"
    by blast
  from insert_urls_unique [OF 1 assms(2)] 2 show ?thesis by simp
qed

lemma insert_users_urls: "insert_users r c = Inr c' \<Longrightarrow> urls c' = urls c"
  by (auto simp: insert_users_def split: option.splits if_splits)

lemma insert_tweet_urls_urls: "insert_tweet_urls t u c = Inr c' \<Longrightarrow> urls c' = urls c"
  by (auto simp: insert_tweet_urls_def split: option.splits if_splits)

lemma insert_tweet_mentions_urls: "insert_tweet_mentions t u c = Inr c' \<Longrightarrow> urls c' = urls c"
  by (auto simp: insert_tweet_mentions_def split: option.splits if_splits)

lemma insert_tweet_tags_urls: "insert_tweet_tags t u c = Inr c' \<Longrightarrow> urls c' = urls c"
  by (auto simp: insert_tweet_tags_def split: option.splits if_splits)

lemma insert_tweet_media_urls: "insert_tweet_media t u ty c = Inr c' \<Longrightarrow> urls c' = urls c"
  by (auto simp: insert_tweet_media_def split: option.splits if_splits)

lemma urls_unique_cong: "urls c' = urls c \<Longrightarrow> urls_unique c \<Longrightarrow> urls_unique c'"
  by (simp add: urls_unique_def)

lemma for_each_unique:
  assumes "\<And>x c c'. f x c = Inr c' \<Longrightarrow> urls_unique c \<Longrightarrow> urls_unique c'"
  shows "for_each f xs c = Inr c' \<Longrightarrow> urls_unique c \<Longrightarrow> urls_unique c'"
proof -
  assume run: "for_each f xs c = Inr c'" and u: "urls_unique c"
  have "urls_unique c \<longrightarrow> urls_unique c'"
    using _ _ _ run by (rule for_each_rel) (auto intro: assms)
  with u show ?thesis by simp
qed

lemma insert_user_row_urls: "insert_user_row tweet u c = Inr c' \<Longrightarrow> urls c' = urls c"
  unfolding insert_user_row_def
  by (auto simp: bnd_eq_Inr dest!: insert_users_urls)

lemma insert_user_unique:
  "insert_user tweet c = Inr c' \<Longrightarrow> urls_unique c \<Longrightarrow> urls_unique c'"
  unfolding insert_user_def
  by (auto simp: bnd_eq_Inr split: if_splits
      dest!: get_id_urls_unique insert_user_row_urls intro: urls_unique_cong)

lemma insert_reply_user_unique:
  "insert_reply_user tweet c = Inr c' \<Longrightarrow> urls_unique c \<Longrightarrow> urls_unique c'"
  unfolding insert_reply_user_def
  by (auto simp: bnd_eq_Inr split: if_splits dest!: insert_users_urls intro: urls_unique_cong)

lemma insert_tweet_row_unique:
  "insert_tweet_row tweet f c = Inr c' \<Longrightarrow> urls_unique c \<Longrightarrow> urls_unique c'"
  by (auto dest!: insert_tweet_row_effect insert_tweets_urls intro: urls_unique_cong)

lemma tweet_urls_step_unique:
  "tweet_urls_step tweet u c = Inr c' \<Longrightarrow> urls_unique c \<Longrightarrow> urls_unique c'"
  unfolding tweet_urls_step_def
  by (auto simp: bnd_eq_Inr dest!: get_id_urls_unique insert_tweet_urls_urls
      intro: urls_unique_cong)

lemma tweet_mentions_step_unique:
  "tweet_mentions_step tweet u c = Inr c' \<Longrightarrow> urls_unique c \<Longrightarrow> urls_unique c'"
  unfolding tweet_mentions_step_def
  by (auto simp: bnd_eq_Inr dest!: insert_users_urls insert_tweet_mentions_urls
      intro: urls_unique_cong)

lemma tweet_tags_step_unique:
  "tweet_tags_step tweet u c = Inr c' \<Longrightarrow> urls_unique c \<Longrightarrow> urls_unique c'"
  unfolding tweet_tags_step_def
  by (auto simp: bnd_eq_Inr dest!: insert_tweet_tags_urls intro: urls_unique_cong)

lemma tweet_media_step_unique:
  "tweet_media_step tweet u c = Inr c' \<Longrightarrow> urls_unique c \<Longrightarrow> urls_unique c'"
  unfolding tweet_media_step_def
  by (auto simp: bnd_eq_Inr dest!: get_id_urls_unique insert_tweet_media_urls
      intro: urls_unique_cong)

lemma insert_tweet_body_unique:
  assumes "insert_tweet_body tweet c = Inr c'" and "urls_unique c"
  shows "urls_unique c'"
proof -
  from assms(1) obtain tid res where tid: "getitem tweet ''id'' = Inr tid"
    and sel: "select_tweets (JStr (py_str tid)) c = Inr res"
    by (rule insert_tweet_body_check)
  show ?thesis
  proof (cases res)
    case (Some row)
    with assms(1) tid sel have "c' = c"
      by (simp add: insert_tweet_body_def)
    with assms(2) show ?thesis by simp
  next
    case None
    with assms(1) tid sel obtain c2 f c3 c4 c5 c6 c7 where
      s2: "insert_user tweet c = Inr c2" and
      s3: "insert_reply_user tweet c2 = Inr c3" and
      s4: "insert_tweet_row tweet f c3 = Inr c4" and
      s5: "insert_urls_of tweet c4 = Inr c5" and
      s6: "insert_mentions_of tweet c5 = Inr c6" and
      s7: "insert_tags_of tweet c6 = Inr c7" and
      s8: "insert_media_of tweet c7 = Inr c'"
      by (auto elim: insert_tweet_body_steps)
    have "urls_unique c4"
      using insert_user_unique [OF s2 assms(2)] s3 s4
      by (blast intro: insert_reply_user_unique insert_tweet_row_unique)
    with s5 have "urls_unique c5"
      unfolding insert_urls_of_def
      by (auto simp: bnd_eq_Inr intro: for_each_unique tweet_urls_step_unique)
    with s6 have "urls_unique c6"
      unfolding insert_mentions_of_def
      by (auto simp: bnd_eq_Inr intro: for_each_unique tweet_mentions_step_unique)
    with s7 have "urls_unique c7"
      unfolding insert_tags_of_def
      by (auto simp: bnd_eq_Inr intro: for_each_unique tweet_tags_step_unique)
    with s8 show ?thesis
      unfolding insert_media_of_def
      by (auto simp: bnd_eq_Inr intro: for_each_unique tweet_media_step_unique)
  qed
qed

lemma insert_tweet_urls_kept:
  assumes "urls_unique c"
  shows "urls_unique (fst (insert_tweet c tweet)) \<and>
         prefix (urls c) (urls (fst (insert_tweet c tweet)))"
proof (cases c tweet rule: insert_tweet_cases)
  case (ok c')
  from insert_tweet_body_unique [OF ok(1) assms] insert_tweet_body_grows [OF ok(1)]
  show ?thesis by (simp add: ok(2) grows_def)
next
  case (raised e n)
  with assms show ?thesis by (simp add: urls_unique_def)
qed

lemma resolve_example:
  "resolve_all (map JStr [''http://a'', ''http://b'', ''http://a'', ''http://u'']) db_a =
     Inr (db_a\<lparr>urls := [(1, JStr ''http://u''), (2, JStr ''http://a''), (4, JStr ''http://b'')],
             urls_seq := 7\<rparr>, [2, 4, 2, 1])"
  by code_simp

text \<open>
  C7, as the spec states it, fails: a url string with \<open>\x00\<close> in it has no row, and its
  resolution adds none and returns no identifier: the statement raises. \<open>insert_tweet\<close>
  passes such a url on as it finds it.
\<close>

theorem get_id_urls_nul_counterexample:
  "JStr (nul ''http://u'') \<notin> snd ` set (urls empty_db) \<and>
   get_id_urls (JStr (nul ''http://u'')) empty_db = Inl (StorageError, 1) \<and>
   getpath (tweet_with (nul ''http://u'') ''Mon'' ''ab'' ''http://a'') [''user'', ''url'']
     = Inr (JStr (nul ''http://u'')) \<and>
   insert_tweet empty_db (tweet_with (nul ''http://u'') ''Mon'' ''ab'' ''http://a'')
     = (empty_db, Inl StorageError)"
  by code_simp

text \<open>
  C7, amended. For a url string without \<open>\x00\<close>, on a \<open>urls\<close> table that meets its
  uniqueness constraint: \<open>get_id_urls\<close> of a string that has a row adds no row and returns
  that row's identifier, and of one that has none it adds one row and returns the new
  identifier. After any sequence of resolutions of such strings the table holds the rows
  it had and the strings resolved, exactly one row for each of them, and resolving one of
  them again adds nothing and returns the identifier it was given. \<open>insert_tweet\<close>, which
  resolves profile, post and media urls, keeps the constraint and every row the table
  had, so each url in the table has one row, with the identifier it had.
\<close>

theorem get_id_urls_get_or_create:
  assumes "urls_unique c" and "CHR 0x00 \<notin> set s" and "\<forall>s\<in>set ss. CHR 0x00 \<notin> set s"
  shows "((i, JStr s) \<in> set (urls c) \<longrightarrow>
            get_id_urls (JStr s) c = Inr (c\<lparr>urls_seq := Suc (urls_seq c)\<rparr>, i)) \<and>
         (JStr s \<notin> snd ` set (urls c) \<longrightarrow>
            get_id_urls (JStr s) c =
              Inr (c\<lparr>urls := urls c @ [(urls_seq c, JStr s)], urls_seq := Suc (urls_seq c)\<rparr>,
                   urls_seq c)) \<and>
         (\<exists>c' ids. resolve_all (map JStr ss) c = Inr (c', ids) \<and> urls_unique c' \<and>
            length ids = length ss \<and>
            snd ` set (urls c') = snd ` set (urls c) \<union> JStr ` set ss \<and>
            (\<forall>j<length ss.
               filter (\<lambda>r. snd r = JStr (ss ! j)) (urls c') = [(ids ! j, JStr (ss ! j))] \<and>
               get_id_urls (JStr (ss ! j)) c' =
                 Inr (c'\<lparr>urls_seq := Suc (urls_seq c')\<rparr>, ids ! j))) \<and>
         urls_unique (fst (insert_tweet c tweet)) \<and>
         prefix (urls c) (urls (fst (insert_tweet c tweet))) \<and>
         (\<forall>j u. (j, u) \<in> set (urls c) \<and> u \<noteq> JNull \<longrightarrow>
            filter (\<lambda>r. snd r = u) (urls (fst (insert_tweet c tweet))) = [(j, u)])"
proof (intro conjI impI)
  assume "(i, JStr s) \<in> set (urls c)"
  with assms(1) show "get_id_urls (JStr s) c = Inr (c\<lparr>urls_seq := Suc (urls_seq c)\<rparr>, i)"
    using assms(2) by (rule get_id_urls_present)
next
  assume "JStr s \<notin> snd ` set (urls c)"
  then show "get_id_urls (JStr s) c =
      Inr (c\<lparr>urls := urls c @ [(urls_seq c, JStr s)], urls_seq := Suc (urls_seq c)\<rparr>, urls_seq c)"
    using assms(2) by (rule get_id_urls_absent)
next
  from resolve_all_str [OF assms(1,3)] obtain c' ids where
    r: "resolve_all (map JStr ss) c = Inr (c', ids)" "urls_unique c'" "length ids = length ss"
       "\<forall>j<length ss. (ids ! j, JStr (ss ! j)) \<in> set (urls c')"
       "snd ` set (urls c') = snd ` set (urls c) \<union> JStr ` set ss"
    by blast
  have "filter (\<lambda>r. snd r = JStr (ss ! j)) (urls c') = [(ids ! j, JStr (ss ! j))] \<and>
      get_id_urls (JStr (ss ! j)) c' = Inr (c'\<lparr>urls_seq := Suc (urls_seq c')\<rparr>, ids ! j)"
    if "j < length ss" for j
  proof -
    from r(4) that have m: "(ids ! j, JStr (ss ! j)) \<in> set (urls c')" by simp
    from that assms(3) have "CHR 0x00 \<notin> set (ss ! j)" by simp
    from unique_find [OF r(2) [unfolded urls_unique_def] m] get_id_urls_present [OF r(2) m this]
    show ?thesis by simp
  qed
  with r show "\<exists>c' ids. resolve_all (map JStr ss) c = Inr (c', ids) \<and> urls_unique c' \<and>
      length ids = length ss \<and>
      snd ` set (urls c') = snd ` set (urls c) \<union> JStr ` set ss \<and>
      (\<forall>j<length ss.
         filter (\<lambda>r. snd r = JStr (ss ! j)) (urls c') = [(ids ! j, JStr (ss ! j))] \<and>
         get_id_urls (JStr (ss ! j)) c' = Inr (c'\<lparr>urls_seq := Suc (urls_seq c')\<rparr>, ids ! j))"
    by blast
next
  note kept = insert_tweet_urls_kept [OF assms(1), of tweet]
  from kept show "urls_unique (fst (insert_tweet c tweet))" by simp
  from kept show "prefix (urls c) (urls (fst (insert_tweet c tweet)))" by simp
  show "\<forall>j u. (j, u) \<in> set (urls c) \<and> u \<noteq> JNull \<longrightarrow>
      filter (\<lambda>r. snd r = u) (urls (fst (insert_tweet c tweet))) = [(j, u)]"
  proof (intro allI impI)
    fix j u assume a: "(j, u) \<in> set (urls c) \<and> u \<noteq> JNull"
    with kept have "(j, u) \<in> set (urls (fst (insert_tweet c tweet)))"
      by (auto dest: set_mono_prefix)
    from unique_find [OF _ this] kept a
    show "filter (\<lambda>r. snd r = u) (urls (fst (insert_tweet c tweet))) = [(j, u)]"
      by (simp add: urls_unique_def)
  qed
qed

theorem get_id_urls_get_or_create_witness:
  "urls_unique db_a \<and>
   get_id_urls (JStr ''http://a'') db_a = Inr (db_a\<lparr>urls_seq := Suc (urls_seq db_a)\<rparr>, 2) \<and>
   get_id_urls (JStr ''http://b'') db_a =
     Inr (db_a\<lparr>urls := urls db_a @ [(urls_seq db_a, JStr ''http://b'')],
             urls_seq := Suc (urls_seq db_a)\<rparr>, urls_seq db_a) \<and>
   resolve_all (map JStr [''http://a'', ''http://b'', ''http://a'', ''http://u'']) db_a =
     Inr (db_a\<lparr>urls := [(1, JStr ''http://u''), (2, JStr ''http://a''), (4, JStr ''http://b'')],
             urls_seq := 7\<rparr>, [2, 4, 2, 1]) \<and>
   urls_unique (fst (insert_tweet db_a tweet_b)) \<and>
   filter (\<lambda>r. snd r = JStr ''http://a'') (urls (fst (insert_tweet db_a tweet_b)))
     = [(2, JStr ''http://a'')]"
proof -
  have u: "urls_unique db_a"
    unfolding urls_unique_def by code_simp
  have a: "(2, JStr ''http://a'') \<in> set (urls db_a)" "JStr ''http://a'' \<noteq> JNull"
    by (simp_all add: db_a_def)
  have b: "JStr ''http://b'' \<notin> snd ` set (urls db_a)"
    by (simp add: db_a_def)
  have n: "CHR 0x00 \<notin> set ''http://a''" "CHR 0x00 \<notin> set ''http://b''"
    "\<forall>s\<in>set [''http://a'', ''http://b'', ''http://a'', ''http://u'']. CHR 0x00 \<notin> set s"
    by simp_all
  from get_id_urls_get_or_create [OF u n(1) n(3), of 2 tweet_b]
    get_id_urls_get_or_create [OF u n(2) n(3), of _ tweet_b] a b u resolve_example
  show ?thesis by blast
qed

subsection \<open>Fallback chains\<close>

text \<open>
  C3, as the spec states it, fails: this record has both identifiers, and its ingestion
  raises \<open>KeyError\<close> because it has no \<open>entities\<close>.
\<close>

theorem missing_entities_counterexample:
  "getitem tweet_no_entities ''id'' = Inr (JInt 1) \<and>
   getpath tweet_no_entities [''user'', ''id''] = Inr (JInt 2) \<and>
   getitem tweet_no_entities ''extended_tweet'' = Inl KeyError \<and>
   getitem tweet_no_entities ''entities'' = Inl KeyError \<and>
   insert_tweet empty_db tweet_no_entities = (empty_db, Inl KeyError)"
  by code_simp

lemma insert_tweet_fails:
  assumes "\<And>c'. insert_tweet_body tweet c \<noteq> Inr c'"
  shows "(\<exists>e. snd (insert_tweet c tweet) = Inl e) \<and> same_rows c (fst (insert_tweet c tweet))"
proof (cases c tweet rule: insert_tweet_cases)
  case (ok c')
  with assms show ?thesis by blast
next
  case (raised e n)
  then show ?thesis by (simp add: same_rows_def)
qed

lemma is_Inr: "map_sum f g m = Inr y \<Longrightarrow> \<exists>x. m = Inr x"
  by (cases m) auto

lemma insert_tweet_raises:
  "insert_tweet_body tweet c = Inl (e, n) \<Longrightarrow> snd (insert_tweet c tweet) = Inl e"
  by (simp add: insert_tweet_def transaction_def)

text \<open>
  C3, amended. The country code, the state code and the place name are null when the
  record has no place or a null one; the media list is empty, and step 8 writes nothing,
  when the record has neither \<open>extended_tweet\<close> nor \<open>extended_entities\<close>; the geography
  is null when \<open>geo\<close> is null, the place has no bounding box and the author is
  geo-enabled. The body text and the url, mention and tag lists have no such last tier:
  with neither the extended nor the base key their chain raises \<open>KeyError\<close>. The
  ingestion of a post not yet stored then fails and leaves every table as it was, both
  identifiers present or not: with \<open>KeyError\<close> when the steps before the chain raise
  nothing, with the exception of the first step that raises otherwise. A record with no
  \<open>id\<close> raises \<open>KeyError\<close>.
\<close>

theorem fallback_chains:
  "(getitem tweet ''place'' = Inl KeyError \<or> getitem tweet ''place'' = Inr JNull \<longrightarrow>
      country_code_field tweet = Inr JNull \<and>
      bnd (country_code_field tweet) (state_code_field tweet) = Inr JNull \<and>
      place_name_field tweet = Inr JNull) \<and>
   (getitem tweet ''extended_tweet'' = Inl KeyError \<and>
    getitem tweet ''extended_entities'' = Inl KeyError \<longrightarrow>
      media_of tweet = Inr (JList []) \<and> insert_media_of tweet c = Inr c) \<and>
   (getitem tweet ''geo'' = Inr JNull \<and>
    getpath tweet [''place'', ''bounding_box''] = Inl KeyError \<and>
    getpath tweet [''user'', ''geo_enabled''] = Inr g \<and> truthy g \<longrightarrow>
      geo_fields tweet = Inr GeoNone) \<and>
   (getitem tweet ''extended_tweet'' = Inl KeyError \<and> getitem tweet ''text'' = Inl KeyError \<longrightarrow>
      text_field tweet = Inl KeyError \<and>
      (getitem tweet ''id'' = Inr tid \<and> select_tweets (JStr (py_str tid)) c = Inr None \<longrightarrow>
         (\<exists>e. snd (insert_tweet c tweet) = Inl e) \<and>
         same_rows c (fst (insert_tweet c tweet)) \<and>
         ((\<exists>c2 gf. insert_user tweet c = Inr c2 \<and> geo_fields tweet = Inr gf) \<longrightarrow>
            snd (insert_tweet c tweet) = Inl KeyError))) \<and>
   (getitem tweet ''extended_tweet'' = Inl KeyError \<and> getitem tweet ''entities'' = Inl KeyError \<longrightarrow>
      urls_of tweet = Inl KeyError \<and> mentions_of tweet = Inl KeyError \<and>
      tags_of tweet = Inl KeyError \<and>
      (getitem tweet ''id'' = Inr tid \<and> select_tweets (JStr (py_str tid)) c = Inr None \<longrightarrow>
         (\<exists>e. snd (insert_tweet c tweet) = Inl e) \<and>
         same_rows c (fst (insert_tweet c tweet)) \<and>
         ((\<exists>c4. steps_2_to_4 tweet c = Inr c4) \<longrightarrow>
            snd (insert_tweet c tweet) = Inl KeyError))) \<and>
   (getitem tweet ''id'' = Inl KeyError \<longrightarrow> insert_tweet c tweet = (c, Inl KeyError))"
proof (intro conjI impI)
  assume "getitem tweet ''place'' = Inl KeyError \<or> getitem tweet ''place'' = Inr JNull"
  then have cc: "country_code_field tweet = Inr JNull"
    by (auto simp: country_code_field_def except_TypeError_KeyError_def)
  then show "country_code_field tweet = Inr JNull" .
  from cc show "bnd (country_code_field tweet) (state_code_field tweet) = Inr JNull"
    by (simp add: state_code_field_def)
next
  assume "getitem tweet ''place'' = Inl KeyError \<or> getitem tweet ''place'' = Inr JNull"
  then show "place_name_field tweet = Inr JNull"
    by (auto simp: place_name_field_def except_TypeError_KeyError_def)
next
  assume a: "getitem tweet ''extended_tweet'' = Inl KeyError \<and>
    getitem tweet ''extended_entities'' = Inl KeyError"
  then show m: "media_of tweet = Inr (JList [])"
    by (simp add: media_of_def except_KeyError_def)
  then show "insert_media_of tweet c = Inr c"
    by (simp add: insert_media_of_def)
next
  assume "getitem tweet ''geo'' = Inr JNull \<and>
    getpath tweet [''place'', ''bounding_box''] = Inl KeyError \<and>
    getpath tweet [''user'', ''geo_enabled''] = Inr g \<and> truthy g"
  then show "geo_fields tweet = Inr GeoNone"
    by (auto simp: geo_fields_def except_KeyError_def split: sum.splits)
next
  assume a: "getitem tweet ''extended_tweet'' = Inl KeyError \<and> getitem tweet ''text'' = Inl KeyError"
  then show t: "text_field tweet = Inl KeyError"
    by (simp add: text_field_def except_KeyError_def)
  assume b: "getitem tweet ''id'' = Inr tid \<and> select_tweets (JStr (py_str tid)) c = Inr None"
  have p: "prepare_fields tweet \<noteq> Inr f" for f
    using t by (auto simp: prepare_fields_def bnd_eq_Inr)
  have no: "insert_tweet_body tweet c \<noteq> Inr c'" for c'
  proof
    assume "insert_tweet_body tweet c = Inr c'"
    with b obtain f where "prepare_fields tweet = Inr f"
      by (auto elim: insert_tweet_body_steps)
    with p show False by blast
  qed
  from insert_tweet_fails [OF no]
  show "\<exists>e. snd (insert_tweet c tweet) = Inl e" "same_rows c (fst (insert_tweet c tweet))"
    by simp_all
  assume "\<exists>c2 gf. insert_user tweet c = Inr c2 \<and> geo_fields tweet = Inr gf"
  then obtain c2 gf where "insert_user tweet c = Inr c2" "geo_fields tweet = Inr gf"
    by blast
  with b t have "insert_tweet_body tweet c = Inl (KeyError, urls_seq c2)"
    by (simp add: insert_tweet_body_def prepare_fields_def)
  then show "snd (insert_tweet c tweet) = Inl KeyError"
    by (rule insert_tweet_raises)
next
  assume a: "getitem tweet ''extended_tweet'' = Inl KeyError \<and>
    getitem tweet ''entities'' = Inl KeyError"
  then show u: "urls_of tweet = Inl KeyError"
    by (simp add: urls_of_def except_KeyError_def)
  from a show "mentions_of tweet = Inl KeyError"
    by (simp add: mentions_of_def except_KeyError_def)
  from a show "tags_of tweet = Inl KeyError"
    by (simp add: tags_of_def except_KeyError_def)
  have s5: "insert_urls_of tweet c4 = Inl (KeyError, urls_seq c4)" for c4
    using u by (simp add: insert_urls_of_def)
  assume b: "getitem tweet ''id'' = Inr tid \<and> select_tweets (JStr (py_str tid)) c = Inr None"
  have no: "insert_tweet_body tweet c \<noteq> Inr c'" for c'
  proof
    assume "insert_tweet_body tweet c = Inr c'"
    with b obtain c4 c5 where "insert_urls_of tweet c4 = Inr c5"
      by (auto elim: insert_tweet_body_steps)
    with s5 show False by simp
  qed
  from insert_tweet_fails [OF no]
  show "\<exists>e. snd (insert_tweet c tweet) = Inl e" "same_rows c (fst (insert_tweet c tweet))"
    by simp_all
  assume "\<exists>c4. steps_2_to_4 tweet c = Inr c4"
  then obtain c2 f c3 c4 where "insert_user tweet c = Inr c2" "prepare_fields tweet = Inr f"
    "insert_reply_user tweet c2 = Inr c3" "insert_tweet_row tweet f c3 = Inr c4"
    unfolding steps_2_to_4_def by (auto simp: bnd_eq_Inr)
  with b s5 have "insert_tweet_body tweet c = Inl (KeyError, urls_seq c4)"
    by (simp add: insert_tweet_body_def)
  then show "snd (insert_tweet c tweet) = Inl KeyError"
    by (rule insert_tweet_raises)
next
  assume "getitem tweet ''id'' = Inl KeyError"
  then show "insert_tweet c tweet = (c, Inl KeyError)"
    by (simp add: insert_tweet_def transaction_def insert_tweet_body_def)
qed

lemma steps_no_entities:
  "map_sum id (\<lambda>c4. length (tweets c4)) (steps_2_to_4 tweet_no_entities empty_db) = Inr 1"
  by code_simp

lemma steps_no_text:
  "map_sum id (\<lambda>c2. length (users c2)) (insert_user tweet_no_text empty_db) = Inr 1"
  "geo_fields tweet_no_text = Inr GeoUnset"
  by code_simp+

theorem fallback_chains_witness:
  "getitem tweet_a ''place'' = Inr JNull \<and>
   country_code_field tweet_a = Inr JNull \<and>
   place_name_field tweet_a = Inr JNull \<and>
   getitem tweet_b ''extended_tweet'' = Inl KeyError \<and>
   getitem tweet_b ''extended_entities'' = Inl KeyError \<and>
   media_of tweet_b = Inr (JList []) \<and>
   getitem tweet_b ''geo'' = Inr JNull \<and>
   getpath tweet_b [''user'', ''geo_enabled''] = Inr (JBool True) \<and>
   geo_fields tweet_b = Inr GeoNone \<and>
   text_field tweet_no_text = Inl KeyError \<and>
   snd (insert_tweet empty_db tweet_no_text) = Inl KeyError \<and>
   map_sum id (\<lambda>c4. length (tweets c4)) (steps_2_to_4 tweet_no_entities empty_db) = Inr 1 \<and>
   getitem tweet_no_entities ''entities'' = Inl KeyError \<and>
   urls_of tweet_no_entities = Inl KeyError \<and>
   snd (insert_tweet empty_db tweet_no_entities) = Inl KeyError \<and>
   same_rows empty_db (fst (insert_tweet empty_db tweet_no_entities)) \<and>
   getitem tweet_null_place ''entities'' = Inl KeyError \<and>
   snd (insert_tweet empty_db tweet_null_place) = Inl TypeError \<and>
   same_rows empty_db (fst (insert_tweet empty_db tweet_null_place)) \<and>
   insert_tweet empty_db (JObj []) = (empty_db, Inl KeyError)"
proof -
  have h1: "getitem tweet_a ''place'' = Inr JNull"
    by code_simp
  have h2: "getitem tweet_b ''extended_tweet'' = Inl KeyError"
    "getitem tweet_b ''extended_entities'' = Inl KeyError"
    by code_simp+
  have h3: "getitem tweet_b ''geo'' = Inr JNull"
    "getpath tweet_b [''place'', ''bounding_box''] = Inl KeyError"
    "getpath tweet_b [''user'', ''geo_enabled''] = Inr (JBool True)"
    "truthy (JBool True)"
    by code_simp+
  have h4: "getitem tweet_no_text ''extended_tweet'' = Inl KeyError"
    "getitem tweet_no_text ''text'' = Inl KeyError"
    "getitem tweet_no_text ''id'' = Inr (JInt 1)"
    by code_simp+
  have h4': "\<exists>c2 gf. insert_user tweet_no_text empty_db = Inr c2 \<and>
      geo_fields tweet_no_text = Inr gf"
    using is_Inr [OF steps_no_text(1)] steps_no_text(2) by blast
  have h5: "getitem tweet_no_entities ''extended_tweet'' = Inl KeyError"
    "getitem tweet_no_entities ''entities'' = Inl KeyError"
    "getitem tweet_no_entities ''id'' = Inr (JInt 1)"
    "select_tweets (JStr (py_str (JInt 1))) empty_db = Inr None"
    by code_simp+
  have h6: "getitem (JObj []) ''id'' = Inl KeyError"
    by code_simp
  have h7: "getitem tweet_null_place ''extended_tweet'' = Inl KeyError"
    "getitem tweet_null_place ''entities'' = Inl KeyError"
    "getitem tweet_null_place ''id'' = Inr (JInt 1)"
    "snd (insert_tweet empty_db tweet_null_place) = Inl TypeError"
    by code_simp+
  have h8: "\<exists>c4. steps_2_to_4 tweet_no_entities empty_db = Inr c4"
    using steps_no_entities by (rule is_Inr)
  from fallback_chains [where tweet = tweet_a] h1
  have a: "country_code_field tweet_a = Inr JNull" "place_name_field tweet_a = Inr JNull"
    by blast+
  from fallback_chains [where tweet = tweet_b and g = "JBool True"] h2 h3
  have b: "media_of tweet_b = Inr (JList [])" "geo_fields tweet_b = Inr GeoNone"
    by blast+
  from fallback_chains [where tweet = tweet_no_text and c = empty_db and tid = "JInt 1"]
    h4 h4' h5(4)
  have c: "text_field tweet_no_text = Inl KeyError"
    "snd (insert_tweet empty_db tweet_no_text) = Inl KeyError"
    by blast+
  from fallback_chains [where tweet = tweet_no_entities and c = empty_db and tid = "JInt 1"] h5 h8
  have d: "urls_of tweet_no_entities = Inl KeyError"
    "snd (insert_tweet empty_db tweet_no_entities) = Inl KeyError"
    "same_rows empty_db (fst (insert_tweet empty_db tweet_no_entities))"
    by blast+
  from fallback_chains [where tweet = tweet_null_place and c = empty_db and tid = "JInt 1"]
    h7 h5(4)
  have e: "same_rows empty_db (fst (insert_tweet empty_db tweet_null_place))"
    by blast
  from fallback_chains [where tweet = "JObj []" and c = empty_db] h6
  have f: "insert_tweet empty_db (JObj []) = (empty_db, Inl KeyError)"
    by blast
  from h1 h2 h3 h5 h7 a b c d e f steps_no_entities show ?thesis by blast
qed

subsection \<open>What reaches the store\<close>

text \<open>
  C4. The code at records with \<open>\x00\<close> in one string. In the text it is removed and the
  post is stored. In the profile url, in the creation time and in the url of the post,
  which no call of \<open>remove_nulls\<close> covers, it is bound as it is: the statement raises
  and nothing of the record is stored.
\<close>

theorem nul_reaches_storage:
  "\<not> bindable (JStr (nul ''http://u'')) \<and>
   snd (insert_tweet empty_db (tweet_with ''http://u'' ''Mon'' (nul ''ab'') ''http://a'')) = Inr () \<and>
   map (\<lambda>r. col r ''text'')
     (tweets (fst (insert_tweet empty_db (tweet_with ''http://u'' ''Mon'' (nul ''ab'') ''http://a''))))
     = [JStr ''ab''] \<and>
   getpath (tweet_with (nul ''http://u'') ''Mon'' ''ab'' ''http://a'') [''user'', ''url'']
     = Inr (JStr (nul ''http://u'')) \<and>
   get_id_urls (JStr (nul ''http://u'')) empty_db = Inl (StorageError, 1) \<and>
   insert_user (tweet_with (nul ''http://u'') ''Mon'' ''ab'' ''http://a'') empty_db
     = Inl (StorageError, 1) \<and>
   insert_tweet empty_db (tweet_with (nul ''http://u'') ''Mon'' ''ab'' ''http://a'')
     = (empty_db, Inl StorageError) \<and>
   py_get (tweet_with ''http://u'' (nul ''Mon'') ''ab'' ''http://a'') ''created_at''
     = Inr (JStr (nul ''Mon'')) \<and>
   insert_tweet empty_db (tweet_with ''http://u'' (nul ''Mon'') ''ab'' ''http://a'')
     = (empty_db\<lparr>urls_seq := 2\<rparr>, Inl StorageError) \<and>
   insert_tweet empty_db (tweet_with ''http://u'' ''Mon'' ''ab'' (nul ''http://a''))
     = (empty_db\<lparr>urls_seq := 2\<rparr>, Inl StorageError)"
  by code_simp

text \<open>
  C5. The code at a record whose author sub-document has profile fields: the author row
  takes its identifier from the sub-document, but \<open>created_at\<close> is the one of the post
  and the other profile fields, read from the record itself, are null.
\<close>

theorem author_fields_from_top_level:
  "getpath tweet_b [''user'', ''created_at''] = Inr (JStr ''Sun'') \<and>
   getpath tweet_b [''user'', ''screen_name''] = Inr (JStr ''bob'') \<and>
   getpath tweet_b [''user'', ''name''] = Inr (JStr ''Bob'') \<and>
   getpath tweet_b [''user'', ''location''] = Inr (JStr ''Oslo'') \<and>
   getpath tweet_b [''user'', ''description''] = Inr (JStr ''me'') \<and>
   getpath tweet_b [''user'', ''verified''] = Inr (JBool True) \<and>
   getpath tweet_b [''user'', ''friends_count''] = Inr (JInt 10) \<and>
   getitem tweet_b ''created_at'' = Inr (JStr ''Mon'') \<and>
   snd (insert_tweet empty_db tweet_b) = Inr () \<and>
   find (\<lambda>r. id_key (col r ''id_users'') = Some 4) (users (fst (insert_tweet empty_db tweet_b))) =
     Some [(''id_users'', JStr ''4''), (''created_at'', JStr ''Mon''), (''updated_at'', JNull),
       (''screen_name'', JNull), (''name'', JNull), (''location'', JNull), (''id_urls'', JNull),
       (''description'', JNull), (''protected'', JNull), (''verified'', JNull),
       (''friends_count'', JNull), (''listed_count'', JNull), (''favourites_count'', JNull),
       (''statuses_count'', JNull), (''withheld_in_countries'', JNull)]"
  by code_simp

text \<open>
  C6. The code at a record with a url, a mention and tags: the post row and the reply
  target's row hold the identifier as a str, the rows of \<open>tweet_urls\<close>,
  \<open>tweet_mentions\<close> and \<open>tweet_tags\<close> and the mentioned author's row hold the int.
\<close>

theorem association_rows_raw_identifier:
  "getitem tweet_a ''id'' = Inr (JInt 1) \<and>
   insert_tweet empty_db tweet_a = (db_a, Inr ()) \<and>
   map (\<lambda>r. col r ''id_tweets'') (tweets db_a) = [JStr ''1''] \<and>
   tweet_urls db_a = [(JInt 1, 2)] \<and>
   tweet_mentions db_a = [(JInt 1, JInt 4)] \<and>
   tweet_tags db_a = [(JInt 1, JStr ''#foo''), (JInt 1, JStr ''$BAR'')] \<and>
   map (\<lambda>r. col r ''id_users'') (users db_a) = [JStr ''2'', JStr ''3'', JInt 4]"
  by code_simp

end
